theory Spec2Isabelle
  imports Main "HOL-Library.Log_Nat"
begin

section \<open>Python values\<close>

text \<open>
  The insight records and the creative metadata are what \<^verbatim>\<open>r.json()\<close> returns: JSON
  decoded into Python values. A \<^verbatim>\<open>dict\<close> is an association list read with \<open>map_of\<close>
  (a Python dict has one binding per key; no function below depends on it). A \<^verbatim>\<open>str\<close>
  is a list of code points below 256.

  A \<^verbatim>\<open>float\<close> is an IEEE binary64 value: a finite one is the rational it denotes, and
  every operation rounds its exact result to the nearest binary64 value, ties to even
  (\<open>float_of_rat\<close>). The two zeros are one value: they are equal in Python, both are
  false, and a division by either raises.
\<close>

datatype pyfloat = Finite rat | PosInf | NegInf | NaN

datatype pyval =
    PNone
  | PBool bool
  | PInt int
  | PFloat pyfloat
  | PStr string
  | PList "pyval list"
  | PDict "(string \<times> pyval) list"

type_synonym pydict = "(string \<times> pyval) list"

datatype pyerror =
    KeyError string
  | ValueError
  | TypeError
  | AttributeError
  | OverflowError
  | ZeroDivisionError
  | OSError

text \<open>Sequencing of computations that may raise: the first exception ends the run.\<close>

definition and_then :: "pyerror + 'a \<Rightarrow> ('a \<Rightarrow> pyerror + 'b) \<Rightarrow> pyerror + 'b" where
  "and_then m f = (case m of Inl e \<Rightarrow> Inl e | Inr x \<Rightarrow> f x)"

subsection \<open>Dictionaries\<close>

text \<open>\<^verbatim>\<open>d.get(k, default)\<close>, \<^verbatim>\<open>d.get(k)\<close> and \<^verbatim>\<open>d[k]\<close>.\<close>

definition dict_get :: "pydict \<Rightarrow> string \<Rightarrow> pyval \<Rightarrow> pyval" where
  "dict_get d k dflt = (case map_of d k of None \<Rightarrow> dflt | Some v \<Rightarrow> v)"

definition dict_get_none :: "pydict \<Rightarrow> string \<Rightarrow> pyval" where
  "dict_get_none d k = dict_get d k PNone"

definition dict_item :: "pydict \<Rightarrow> string \<Rightarrow> pyerror + pyval" where
  "dict_item d k = (case map_of d k of None \<Rightarrow> Inl (KeyError k) | Some v \<Rightarrow> Inr v)"

text \<open>
  \<^verbatim>\<open>x.get(k)\<close> and \<^verbatim>\<open>x.get(k, default)\<close> on a value that may not be a dict: only a dict
  has the method.
\<close>

definition val_get :: "pyval \<Rightarrow> string \<Rightarrow> pyval \<Rightarrow> pyerror + pyval" where
  "val_get x k dflt = (case x of PDict d \<Rightarrow> Inr (dict_get d k dflt) | _ \<Rightarrow> Inl AttributeError)"

text \<open>A list and a dict cannot be hashed: looking one up in a set or a dict raises.\<close>

definition hashable :: "pyval \<Rightarrow> bool" where
  "hashable v = (case v of PList _ \<Rightarrow> False | PDict _ \<Rightarrow> False | _ \<Rightarrow> True)"

text \<open>\<^verbatim>\<open>v in s\<close> for a set \<open>s\<close> of strings: only an equal string is a member.\<close>

definition in_str_set :: "pyval \<Rightarrow> string set \<Rightarrow> pyerror + bool" where
  "in_str_set v s =
     (if \<not> hashable v then Inl TypeError
      else Inr (case v of PStr x \<Rightarrow> x \<in> s | _ \<Rightarrow> False))"

text \<open>\<^verbatim>\<open>for a in v\<close>: the elements of a list, the keys of a dict, the characters of a string.\<close>

definition py_iter :: "pyval \<Rightarrow> pyerror + pyval list" where
  "py_iter v =
     (case v of
        PList xs \<Rightarrow> Inr xs
      | PDict d \<Rightarrow> Inr (map (\<lambda>kv. PStr (fst kv)) d)
      | PStr s \<Rightarrow> Inr (map (\<lambda>c. PStr [c]) s)
      | _ \<Rightarrow> Inl TypeError)"

subsection \<open>Binary64 arithmetic\<close>

definition round_half_even :: "rat \<Rightarrow> int" where
  "round_half_even y =
     (let f = \<lfloor>y\<rfloor>; d = y - of_int f
      in if d < 1 / 2 then f else if 1 / 2 < d then f + 1 else if even f then f else f + 1)"

text \<open>For \<open>0 < a\<close>, the \<open>k\<close> with \<open>2 powi k \<le> a < 2 powi (k + 1)\<close>.\<close>

definition floor_log2 :: "rat \<Rightarrow> int" where
  "floor_log2 a =
     (let k = bitlen (fst (quotient_of a)) - bitlen (snd (quotient_of a))
      in if a < 2 powi k then k - 1 else k)"

text \<open>
  The nearest binary64 value: 53 bits of mantissa, exponents down to that of the
  subnormals, and an infinity from \<open>2 ^ 1024 - 2 ^ 970\<close> on (half an ulp above the largest
  finite value).
\<close>

definition overflow_bound :: rat where
  "overflow_bound = 2 ^ 1024 - 2 ^ 970"

definition float_of_rat :: "rat \<Rightarrow> pyfloat" where
  "float_of_rat x =
     (if x = 0 then Finite 0
      else if overflow_bound \<le> \<bar>x\<bar> then (if 0 < x then PosInf else NegInf)
      else let e = max (floor_log2 \<bar>x\<bar> - 52) (- 1074)
           in Finite (of_int (round_half_even (x / 2 powi e)) * 2 powi e))"

definition float_is_nan :: "pyfloat \<Rightarrow> bool" where
  "float_is_nan f = (case f of NaN \<Rightarrow> True | _ \<Rightarrow> False)"

text \<open>The sign of a float that is neither zero nor a NaN.\<close>

definition float_neg :: "pyfloat \<Rightarrow> bool" where
  "float_neg f = (case f of Finite x \<Rightarrow> x < 0 | NegInf \<Rightarrow> True | _ \<Rightarrow> False)"

definition signed_inf :: "bool \<Rightarrow> pyfloat" where
  "signed_inf neg = (if neg then NegInf else PosInf)"

text \<open>\<^verbatim>\<open>bool(f)\<close>: every float but zero is true, a NaN too.\<close>

definition float_truthy :: "pyfloat \<Rightarrow> bool" where
  "float_truthy f = (f \<noteq> Finite 0)"

text \<open>\<^verbatim>\<open>a + b\<close> on floats.\<close>

fun float_add :: "pyfloat \<Rightarrow> pyfloat \<Rightarrow> pyfloat" where
  "float_add (Finite a) (Finite b) = float_of_rat (a + b)"
| "float_add NaN _ = NaN"
| "float_add _ NaN = NaN"
| "float_add PosInf NegInf = NaN"
| "float_add NegInf PosInf = NaN"
| "float_add PosInf _ = PosInf"
| "float_add NegInf _ = NegInf"
| "float_add _ PosInf = PosInf"
| "float_add _ NegInf = NegInf"

text \<open>\<^verbatim>\<open>a * b\<close> on floats.\<close>

definition float_mul :: "pyfloat \<Rightarrow> pyfloat \<Rightarrow> pyfloat" where
  "float_mul a b =
     (case (a, b) of
        (Finite x, Finite y) \<Rightarrow> float_of_rat (x * y)
      | _ \<Rightarrow>
          if float_is_nan a \<or> float_is_nan b \<or> a = Finite 0 \<or> b = Finite 0 then NaN
          else signed_inf (float_neg a \<noteq> float_neg b))"

text \<open>\<^verbatim>\<open>a / b\<close> on floats: a zero divisor raises, whatever the dividend.\<close>

definition float_div :: "pyfloat \<Rightarrow> pyfloat \<Rightarrow> pyerror + pyfloat" where
  "float_div a b =
     (if b = Finite 0 then Inl ZeroDivisionError
      else Inr (case (a, b) of
        (Finite x, Finite y) \<Rightarrow> float_of_rat (x / y)
      | (Finite x, _) \<Rightarrow> if float_is_nan b then NaN else Finite 0
      | (_, Finite y) \<Rightarrow> if float_is_nan a then NaN else signed_inf (float_neg a \<noteq> float_neg b)
      | _ \<Rightarrow> NaN))"

text \<open>An int as a float, as an arithmetic operation converts it: too large an int raises.\<close>

definition int_to_float :: "int \<Rightarrow> pyerror + pyfloat" where
  "int_to_float n =
     (case float_of_rat (of_int n) of Finite x \<Rightarrow> Inr (Finite x) | _ \<Rightarrow> Inl OverflowError)"

text \<open>\<^verbatim>\<open>a / b\<close> on two ints: the exact quotient, rounded once.\<close>

definition int_truediv :: "int \<Rightarrow> int \<Rightarrow> pyerror + pyfloat" where
  "int_truediv a b =
     (if b = 0 then Inl ZeroDivisionError
      else case float_of_rat (of_int a / of_int b) of
             Finite x \<Rightarrow> Inr (Finite x)
           | _ \<Rightarrow> Inl OverflowError)"

text \<open>\<^verbatim>\<open>a / n\<close> and \<^verbatim>\<open>a * n\<close> for a float and an int: the int is converted first.\<close>

definition float_div_int :: "pyfloat \<Rightarrow> int \<Rightarrow> pyerror + pyfloat" where
  "float_div_int a n = and_then (int_to_float n) (\<lambda>b. float_div a b)"

definition float_mul_int :: "pyfloat \<Rightarrow> int \<Rightarrow> pyerror + pyfloat" where
  "float_mul_int a n = and_then (int_to_float n) (\<lambda>b. Inr (float_mul a b))"

text \<open>
  \<^verbatim>\<open>round(f, 2)\<close> on a float: the exact value rounded to two decimals, ties to even, then
  to the nearest float; an infinity and a NaN round to themselves.
\<close>

definition float_round2 :: "pyfloat \<Rightarrow> pyfloat" where
  "float_round2 f =
     (case f of
        Finite x \<Rightarrow> float_of_rat (of_int (round_half_even (x * 100)) / 100)
      | _ \<Rightarrow> f)"

text \<open>\<^verbatim>\<open>int(f)\<close> on a float: towards zero.\<close>

definition float_to_int :: "pyfloat \<Rightarrow> pyerror + int" where
  "float_to_int f =
     (case f of
        Finite x \<Rightarrow> Inr (if 0 \<le> x then \<lfloor>x\<rfloor> else \<lceil>x\<rceil>)
      | NaN \<Rightarrow> Inl ValueError
      | _ \<Rightarrow> Inl OverflowError)"

subsection \<open>Reading numbers: \<^verbatim>\<open>float(v)\<close> and \<^verbatim>\<open>int(v)\<close>\<close>

text \<open>
  Both builtins strip white space (the six ASCII blanks, and the blanks above 127, which
  they turn into spaces first), take one sign and allow single underscores between
  digits. \<^verbatim>\<open>float\<close> reads a decimal with an optional fraction and exponent, or one of
  \<^verbatim>\<open>inf\<close>, \<^verbatim>\<open>infinity\<close>, \<^verbatim>\<open>nan\<close> in any case; \<^verbatim>\<open>int\<close> reads digits only, and CPython
  refuses more than 4300 of them by default.
\<close>

definition is_space :: "char \<Rightarrow> bool" where
  "is_space c = ((of_char c :: nat) \<in> set [9, 10, 11, 12, 13, 32, 133, 160])"

definition is_digit :: "char \<Rightarrow> bool" where
  "is_digit c = (48 \<le> (of_char c :: nat) \<and> (of_char c :: nat) \<le> 57)"

definition digits_val :: "string \<Rightarrow> int" where
  "digits_val s = foldl (\<lambda>n c. 10 * n + (of_char c - 48)) 0 s"

definition strip :: "string \<Rightarrow> string" where
  "strip s = rev (dropWhile is_space (rev (dropWhile is_space s)))"

definition lower :: "string \<Rightarrow> string" where
  "lower s =
     map (\<lambda>c. if 65 \<le> (of_char c :: nat) \<and> (of_char c :: nat) \<le> 90
              then char_of (of_char c + (32 :: nat)) else c) s"

definition take_sign :: "string \<Rightarrow> bool \<times> string" where
  "take_sign s =
     (case s of
        [] \<Rightarrow> (False, [])
      | c # cs \<Rightarrow>
          if c = CHR ''-'' then (True, cs) else if c = CHR ''+'' then (False, cs) else (False, s))"

text \<open>In a float, an underscore stands after a digit and before a digit.\<close>

fun underscores_ok :: "char \<Rightarrow> string \<Rightarrow> bool" where
  "underscores_ok prev [] = (prev \<noteq> CHR ''_'')"
| "underscores_ok prev (c # cs) =
     ((if c = CHR ''_'' then is_digit prev else prev \<noteq> CHR ''_'' \<or> is_digit c)
      \<and> underscores_ok c cs)"

text \<open>What may follow the mantissa: nothing, or an exponent with at least one digit.\<close>

definition parse_exponent :: "string \<Rightarrow> int option" where
  "parse_exponent s =
     (case s of
        [] \<Rightarrow> Some 0
      | c # cs \<Rightarrow>
          if c = CHR ''e'' \<or> c = CHR ''E'' then
            (let ds = snd (take_sign cs)
             in if ds \<noteq> [] \<and> list_all is_digit ds
                then Some (if fst (take_sign cs) then - digits_val ds else digits_val ds)
                else None)
          else None)"

definition parse_decimal :: "string \<Rightarrow> rat option" where
  "parse_decimal s =
     (let ip = takeWhile is_digit s;
          r1 = dropWhile is_digit s;
          has_point = (r1 \<noteq> [] \<and> hd r1 = CHR ''.'');
          fp = (if has_point then takeWhile is_digit (tl r1) else []);
          r2 = (if has_point then dropWhile is_digit (tl r1) else r1)
      in if ip = [] \<and> fp = [] then None
         else case parse_exponent r2 of
                None \<Rightarrow> None
              | Some ex \<Rightarrow> Some (of_int (digits_val (ip @ fp)) * 10 powi (ex - int (length fp))))"

definition float_of_str :: "string \<Rightarrow> pyerror + pyfloat" where
  "float_of_str s0 =
     (let s = strip s0
      in if \<not> underscores_ok (CHR 0x00) s then Inl ValueError
         else let body = snd (take_sign (filter (\<lambda>c. c \<noteq> CHR ''_'') s));
                  neg = fst (take_sign (filter (\<lambda>c. c \<noteq> CHR ''_'') s))
              in if lower body = ''inf'' \<or> lower body = ''infinity'' then Inr (signed_inf neg)
                 else if lower body = ''nan'' then Inr NaN
                 else case parse_decimal body of
                        None \<Rightarrow> Inl ValueError
                      | Some x \<Rightarrow> Inr (float_of_rat (if neg then - x else x)))"

text \<open>In an int: a digit, then digits each with at most one underscore before it.\<close>

fun int_digits_ok :: "string \<Rightarrow> bool" where
  "int_digits_ok [] = False"
| "int_digits_ok [c] = is_digit c"
| "int_digits_ok (c # d # cs) =
     (is_digit c \<and> (if d = CHR ''_'' then int_digits_ok cs else int_digits_ok (d # cs)))"

definition int_of_str :: "string \<Rightarrow> pyerror + int" where
  "int_of_str s0 =
     (let body = snd (take_sign (strip s0));
          neg = fst (take_sign (strip s0));
          ds = filter (\<lambda>c. c \<noteq> CHR ''_'') body
      in if \<not> int_digits_ok body \<or> 4300 < length ds then Inl ValueError
         else Inr (if neg then - digits_val ds else digits_val ds))"

definition py_float :: "pyval \<Rightarrow> pyerror + pyfloat" where
  "py_float v =
     (case v of
        PBool b \<Rightarrow> Inr (Finite (if b then 1 else 0))
      | PInt n \<Rightarrow> int_to_float n
      | PFloat f \<Rightarrow> Inr f
      | PStr s \<Rightarrow> float_of_str s
      | _ \<Rightarrow> Inl TypeError)"

definition py_int :: "pyval \<Rightarrow> pyerror + int" where
  "py_int v =
     (case v of
        PBool b \<Rightarrow> Inr (if b then 1 else 0)
      | PInt n \<Rightarrow> Inr n
      | PFloat f \<Rightarrow> float_to_int f
      | PStr s \<Rightarrow> int_of_str s
      | _ \<Rightarrow> Inl TypeError)"

text \<open>\<^verbatim>\<open>bool(v)\<close>, as a conditional expression tests its condition.\<close>

definition truthy :: "pyval \<Rightarrow> bool" where
  "truthy v =
     (case v of
        PNone \<Rightarrow> False
      | PBool b \<Rightarrow> b
      | PInt n \<Rightarrow> n \<noteq> 0
      | PFloat f \<Rightarrow> float_truthy f
      | PStr s \<Rightarrow> s \<noteq> []
      | PList xs \<Rightarrow> xs \<noteq> []
      | PDict d \<Rightarrow> d \<noteq> [])"

text \<open>
  A number that is an int or a float: the metrics are the int \<open>0\<close> where a guard skips
  the division, a float otherwise. \<^verbatim>\<open>round(x, 2)\<close> leaves an int as it is.
\<close>

datatype pynum = NInt int | NFloat pyfloat

definition round2 :: "pynum \<Rightarrow> pynum" where
  "round2 x = (case x of NInt n \<Rightarrow> NInt n | NFloat f \<Rightarrow> NFloat (float_round2 f))"

section \<open>The metric utilities of \<^verbatim>\<open>main.py\<close>\<close>

subsection \<open>\<^verbatim>\<open>calculate_metrics\<close>\<close>

definition conv_types :: "string set" where
  "conv_types =
     {''purchase'', ''lead'', ''complete_registration'', ''add_to_cart'', ''initiate_checkout''}"

text \<open>
  One pass of the first loop: \<open>None\<close> when the entry's \<^verbatim>\<open>action_type\<close> is not a
  conversion type, else \<^verbatim>\<open>int(float(a.get("value", 0)))\<close>.
\<close>

definition action_conversions :: "pyval \<Rightarrow> pyerror + int option" where
  "action_conversions a =
     and_then (val_get a ''action_type'' PNone) (\<lambda>t.
     and_then (in_str_set t conv_types) (\<lambda>counted.
       if counted then
         and_then (val_get a ''value'' (PInt 0)) (\<lambda>v.
         and_then (py_float v) (\<lambda>f.
         and_then (float_to_int f) (\<lambda>n. Inr (Some n))))
       else Inr None))"

text \<open>One pass of the second loop: \<^verbatim>\<open>float(v.get("value", 0))\<close> for a conversion type.\<close>

definition action_value :: "pyval \<Rightarrow> pyerror + pyfloat option" where
  "action_value v =
     and_then (val_get v ''action_type'' PNone) (\<lambda>t.
     and_then (in_str_set t conv_types) (\<lambda>counted.
       if counted then
         and_then (val_get v ''value'' (PInt 0)) (\<lambda>x.
         and_then (py_float x) (\<lambda>f. Inr (Some f)))
       else Inr None))"

text \<open>The two loops, with the running totals \<^verbatim>\<open>conversions\<close> and \<^verbatim>\<open>conv_value\<close>.\<close>

fun sum_conversions :: "pyval list \<Rightarrow> int \<Rightarrow> pyerror + int" where
  "sum_conversions [] conversions = Inr conversions"
| "sum_conversions (a # actions) conversions =
     (case action_conversions a of
        Inl e \<Rightarrow> Inl e
      | Inr None \<Rightarrow> sum_conversions actions conversions
      | Inr (Some n) \<Rightarrow> sum_conversions actions (conversions + n))"

fun sum_conv_value :: "pyval list \<Rightarrow> pyfloat \<Rightarrow> pyerror + pyfloat" where
  "sum_conv_value [] conv_value = Inr conv_value"
| "sum_conv_value (v # vals) conv_value =
     (case action_value v of
        Inl e \<Rightarrow> Inl e
      | Inr None \<Rightarrow> sum_conv_value vals conv_value
      | Inr (Some f) \<Rightarrow> sum_conv_value vals (float_add conv_value f))"

text \<open>
  \<^verbatim>\<open>cpa = spend / conversions if conversions else 0\<close> and
  \<^verbatim>\<open>roas = conv_value / spend if spend else 0\<close>.
\<close>

definition cpa_of :: "pyfloat \<Rightarrow> int \<Rightarrow> pyerror + pynum" where
  "cpa_of spend conversions =
     (if conversions \<noteq> 0
      then and_then (float_div_int spend conversions) (\<lambda>q. Inr (NFloat q))
      else Inr (NInt 0))"

definition roas_of :: "pyfloat \<Rightarrow> pyfloat \<Rightarrow> pyerror + pynum" where
  "roas_of conv_value spend =
     (if float_truthy spend
      then and_then (float_div conv_value spend) (\<lambda>q. Inr (NFloat q))
      else Inr (NInt 0))"

definition calculate_metrics :: "pydict \<Rightarrow> pyerror + (int \<times> pyfloat \<times> pynum \<times> pynum)" where
  "calculate_metrics insight =
     and_then (py_float (dict_get insight ''spend'' (PInt 0))) (\<lambda>spend.
     and_then (py_iter (dict_get insight ''actions'' (PList []))) (\<lambda>actions.
     and_then (sum_conversions actions 0) (\<lambda>conversions.
     and_then (py_iter (dict_get insight ''action_values'' (PList []))) (\<lambda>vals.
     and_then (sum_conv_value vals (Finite 0)) (\<lambda>conv_value.
     and_then (cpa_of spend conversions) (\<lambda>cpa.
     and_then (roas_of conv_value spend) (\<lambda>roas.
       Inr (conversions, conv_value, round2 cpa, round2 roas))))))))"

subsection \<open>\<^verbatim>\<open>process_creative_data\<close>\<close>

text \<open>The row appended for one insight: the 21 keys of the dict, in its order.\<close>

record row =
  date :: pyval
  campaign_id :: pyval
  campaign_name :: pyval
  adset_id :: pyval
  adset_name :: pyval
  ad_id :: pyval
  ad_name :: pyval
  creative_id :: pyval
  creative_name :: pyval
  creative_type :: string
  image_hash :: pyval
  video_id :: pyval
  spend :: pyfloat
  impressions :: int
  clicks :: int
  conversions :: int
  conversion_value :: pyfloat
  cpa :: pynum
  roas :: pynum
  ctr :: pynum
  cpm :: pynum

text \<open>
  \<^verbatim>\<open>creative_details.get(ad_id, {})\<close>: the keys of \<^verbatim>\<open>creative_details\<close> are the ad ids, strings;
  the key looked up is hashed first.
\<close>

definition lookup_creative :: "(string \<times> pydict) list \<Rightarrow> pyval \<Rightarrow> pyerror + pydict" where
  "lookup_creative creative_details k =
     (if \<not> hashable k then Inl TypeError
      else Inr (case k of
                  PStr a \<Rightarrow> (case map_of creative_details a of None \<Rightarrow> [] | Some c \<Rightarrow> c)
                | _ \<Rightarrow> []))"

text \<open>
  \<^verbatim>\<open>ctr = round(clicks / impr * 100, 2) if impr else 0\<close> and
  \<^verbatim>\<open>cpm = round(spend / impr * 1000, 2) if impr else 0\<close>.
\<close>

definition ctr_of :: "int \<Rightarrow> int \<Rightarrow> pyerror + pynum" where
  "ctr_of n_clicks impr =
     (if impr \<noteq> 0
      then and_then (int_truediv n_clicks impr) (\<lambda>q.
           and_then (float_mul_int q 100) (\<lambda>p. Inr (NFloat (float_round2 p))))
      else Inr (NInt 0))"

definition cpm_of :: "pyfloat \<Rightarrow> int \<Rightarrow> pyerror + pynum" where
  "cpm_of spent impr =
     (if impr \<noteq> 0
      then and_then (float_div_int spent impr) (\<lambda>q.
           and_then (float_mul_int q 1000) (\<lambda>p. Inr (NFloat (float_round2 p))))
      else Inr (NInt 0))"

definition ctype_of :: "pydict \<Rightarrow> string" where
  "ctype_of c =
     (if truthy (dict_get_none c ''has_video'') then ''Video''
      else if truthy (dict_get_none c ''has_image'') then ''Image''
      else ''Unknown'')"

text \<open>The body of the loop, in the order the statements run.\<close>

definition process_insight :: "pydict \<Rightarrow> (string \<times> pydict) list \<Rightarrow> pyerror + row" where
  "process_insight ins creative_details =
     and_then (dict_item ins ''ad_id'') (\<lambda>aid.
     and_then (lookup_creative creative_details aid) (\<lambda>c.
     and_then (calculate_metrics ins) (\<lambda>m.
     and_then (py_int (dict_get ins ''impressions'' (PInt 0))) (\<lambda>impr.
     and_then (py_int (dict_get ins ''clicks'' (PInt 0))) (\<lambda>n_clicks.
     and_then (py_float (dict_get ins ''spend'' (PInt 0))) (\<lambda>spent.
     and_then (ctr_of n_clicks impr) (\<lambda>ctr_v.
     and_then (cpm_of spent impr) (\<lambda>cpm_v.
     and_then (dict_item ins ''date_start'') (\<lambda>d.
     and_then (dict_item ins ''campaign_id'') (\<lambda>cid.
     and_then (dict_item ins ''campaign_name'') (\<lambda>cname.
     and_then (dict_item ins ''adset_id'') (\<lambda>sid.
     and_then (dict_item ins ''adset_name'') (\<lambda>sname.
     and_then (dict_item ins ''ad_name'') (\<lambda>aname.
       Inr \<lparr> date = d, campaign_id = cid, campaign_name = cname, adset_id = sid,
             adset_name = sname, ad_id = aid, ad_name = aname,
             creative_id = dict_get_none c ''creative_id'',
             creative_name = dict_get_none c ''creative_name'',
             creative_type = ctype_of c,
             image_hash = dict_get_none c ''image_hash'',
             video_id = dict_get_none c ''video_id'',
             spend = spent, impressions = impr, clicks = n_clicks,
             conversions = fst m, conversion_value = fst (snd m),
             cpa = fst (snd (snd m)), roas = snd (snd (snd m)),
             ctr = ctr_v, cpm = cpm_v \<rparr>))))))))))))))"

text \<open>The loop: \<^verbatim>\<open>rows\<close> grows by one row per insight; an exception ends it.\<close>

fun append_rows :: "pydict list \<Rightarrow> (string \<times> pydict) list \<Rightarrow> row list \<Rightarrow> pyerror + row list" where
  "append_rows [] creative_details rows = Inr rows"
| "append_rows (ins # insights) creative_details rows =
     (case process_insight ins creative_details of
        Inl e \<Rightarrow> Inl e
      | Inr r \<Rightarrow> append_rows insights creative_details (rows @ [r]))"

definition process_creative_data :: "pydict list \<Rightarrow> (string \<times> pydict) list \<Rightarrow> pyerror + row list" where
  "process_creative_data insights creative_details = append_rows insights creative_details []"

subsection \<open>\<^verbatim>\<open>save_to_csv\<close>\<close>

text \<open>
  The file system: the table each path holds (the rows in the order written, under the
  header of the 21 columns), and the paths that can be written. The text of the file
  and the line printed on the console are not modelled.
\<close>

record world =
  files :: "string \<Rightarrow> row list option"
  writable :: "string \<Rightarrow> bool"

text \<open>\<^verbatim>\<open>df.to_csv(path, index=False)\<close>.\<close>

definition to_csv :: "row list \<Rightarrow> string \<Rightarrow> world \<Rightarrow> pyerror + world" where
  "to_csv df path w =
     (if writable w path then Inr (w\<lparr>files := (files w)(path \<mapsto> df)\<rparr>) else Inl OSError)"

text \<open>
  \<^verbatim>\<open>pd.DataFrame(rows).sort_values("spend", ascending=False)\<close> is code of the pandas
  library, not of \<^verbatim>\<open>main.py\<close>: it is the parameter \<open>sort_values\<close>.
\<close>

definition save_to_csv ::
  "(row list \<Rightarrow> row list) \<Rightarrow> row list \<Rightarrow> string \<Rightarrow> world \<Rightarrow> (pyerror + bool) \<times> world" where
  "save_to_csv sort_values rows path w =
     (if rows = [] then (Inr False, w)
      else case to_csv (sort_values rows) path w of
             Inl e \<Rightarrow> (Inl e, w)
           | Inr w' \<Rightarrow> (Inr True, w'))"

section \<open>What the specification says, and its examples\<close>

text \<open>
  The specification's conversions: the sum, over the \<^verbatim>\<open>actions\<close> entries whose
  \<^verbatim>\<open>action_type\<close> is a conversion type, of the entry's \<^verbatim>\<open>value\<close> read as a decimal and
  truncated to an integer.
\<close>

definition counted :: "pyval \<Rightarrow> bool" where
  "counted a =
     (case a of
        PDict d \<Rightarrow> (case dict_get d ''action_type'' PNone of PStr t \<Rightarrow> t \<in> conv_types | _ \<Rightarrow> False)
      | _ \<Rightarrow> False)"

definition truncated_value :: "pyval \<Rightarrow> int" where
  "truncated_value a =
     (case and_then (val_get a ''value'' (PInt 0)) (\<lambda>v. and_then (py_float v) float_to_int) of
        Inl e \<Rightarrow> 0
      | Inr n \<Rightarrow> n)"

definition spec_conversions :: "pyval list \<Rightarrow> int" where
  "spec_conversions actions = sum_list (map truncated_value (filter counted actions))"

text \<open>
  The specification's rounding to 2 decimal places: \<open>y\<close> is a whole number of hundredths
  and lies within half a hundredth of \<open>x\<close>, so that no whole number of hundredths is
  nearer to \<open>x\<close>.
\<close>

definition rounded_to_2_places :: "rat \<Rightarrow> rat \<Rightarrow> bool" where
  "rounded_to_2_places x y \<longleftrightarrow> of_int \<lfloor>y * 100\<rfloor> = y * 100 \<and> \<bar>y - x\<bar> \<le> 1 / 200"


text \<open>
  The insight of end-to-end scenario 1, with the seven identifying fields the row needs
  (any values, the ad id a string), and the same insight as the API sends it, every number
  a string.
\<close>

definition scenario_1 ::
  "pyval \<Rightarrow> pyval \<Rightarrow> pyval \<Rightarrow> pyval \<Rightarrow> pyval \<Rightarrow> string \<Rightarrow> pyval \<Rightarrow> pydict" where
  "scenario_1 d cid cname sid sname a aname =
     [(''date_start'', d), (''campaign_id'', cid), (''campaign_name'', cname),
      (''adset_id'', sid), (''adset_name'', sname), (''ad_id'', PStr a), (''ad_name'', aname),
      (''impressions'', PInt 1000), (''clicks'', PInt 20), (''spend'', PFloat (Finite 50)),
      (''actions'', PList [PDict [(''action_type'', PStr ''purchase''), (''value'', PStr ''2'')]]),
      (''action_values'',
       PList [PDict [(''action_type'', PStr ''purchase''), (''value'', PStr ''150.00'')]])]"

definition example_insight :: pydict where
  "example_insight =
     [(''date_start'', PStr ''2024-05-01''), (''campaign_id'', PStr ''c1''),
      (''campaign_name'', PStr ''Spring''), (''adset_id'', PStr ''s1''),
      (''adset_name'', PStr ''Adults''), (''ad_id'', PStr ''a1''), (''ad_name'', PStr ''Banner''),
      (''impressions'', PStr ''1000''), (''clicks'', PStr ''20''), (''spend'', PStr ''50.00''),
      (''actions'', PList [PDict [(''action_type'', PStr ''purchase''), (''value'', PStr ''2'')]]),
      (''action_values'',
       PList [PDict [(''action_type'', PStr ''purchase''), (''value'', PStr ''150.00'')]])]"

definition metrics_of :: "row \<Rightarrow> pynum \<times> pynum \<times> int \<times> pyfloat \<times> pynum \<times> pynum" where
  "metrics_of r = (ctr r, cpm r, conversions r, conversion_value r, cpa r, roas r)"

text \<open>An insight, as the API sends it, with and without its creative, and the rows it gives.\<close>

definition example_creatives :: "(string \<times> pydict) list" where
  "example_creatives =
     [(''a1'', [(''creative_id'', PStr ''cr1''), (''creative_name'', PStr ''Clip''),
               (''image_hash'', PStr ''h''), (''video_id'', PStr ''v''),
               (''thumbnail_url'', PNone), (''has_video'', PBool True), (''has_image'', PBool True)])]"

definition example_row :: row where
  "example_row =
     \<lparr> date = PStr ''2024-05-01'', campaign_id = PStr ''c1'', campaign_name = PStr ''Spring'',
       adset_id = PStr ''s1'', adset_name = PStr ''Adults'', ad_id = PStr ''a1'',
       ad_name = PStr ''Banner'', creative_id = PNone, creative_name = PNone,
       creative_type = ''Unknown'', image_hash = PNone, video_id = PNone,
       spend = Finite 50, impressions = 1000, clicks = 20, conversions = 2,
       conversion_value = Finite 150, cpa = NFloat (Finite 25), roas = NFloat (Finite 3),
       ctr = NFloat (Finite 2), cpm = NFloat (Finite 50) \<rparr>"

definition example_row_video :: row where
  "example_row_video =
     example_row\<lparr> creative_id := PStr ''cr1'', creative_name := PStr ''Clip'',
                  creative_type := ''Video'', image_hash := PStr ''h'', video_id := PStr ''v'' \<rparr>"

text \<open>
  An insight whose quotients are not whole numbers of hundredths: spend 3, 7 conversions
  worth 1, 7 impressions and 1 click.
\<close>

definition sevenths_insight :: pydict where
  "sevenths_insight =
     [(''date_start'', PStr ''2024-05-01''), (''campaign_id'', PStr ''c1''),
      (''campaign_name'', PStr ''Spring''), (''adset_id'', PStr ''s1''),
      (''adset_name'', PStr ''Adults''), (''ad_id'', PStr ''a7''), (''ad_name'', PStr ''Wide''),
      (''impressions'', PStr ''7''), (''clicks'', PStr ''1''), (''spend'', PStr ''3''),
      (''actions'', PList [PDict [(''action_type'', PStr ''purchase''), (''value'', PStr ''7'')]]),
      (''action_values'',
       PList [PDict [(''action_type'', PStr ''purchase''), (''value'', PStr ''1'')]])]"

definition sevenths_row :: row where
  "sevenths_row =
     \<lparr> date = PStr ''2024-05-01'', campaign_id = PStr ''c1'', campaign_name = PStr ''Spring'',
       adset_id = PStr ''s1'', adset_name = PStr ''Adults'', ad_id = PStr ''a7'',
       ad_name = PStr ''Wide'', creative_id = PNone, creative_name = PNone,
       creative_type = ''Unknown'', image_hash = PNone, video_id = PNone,
       spend = Finite 3, impressions = 7, clicks = 1, conversions = 7,
       conversion_value = Finite 1,
       cpa = NFloat (Finite (7746191359077253 / 18014398509481984)),
       roas = NFloat (Finite (5944751508129055 / 18014398509481984)),
       ctr = NFloat (Finite (2011138708597637 / 140737488355328)),
       cpm = NFloat (Finite (7539483173055365 / 17592186044416)) \<rparr>"

text \<open>An insight with impressions 0, and one with spend 0 and a conversion value.\<close>

definition no_impressions_insight :: pydict where
  "no_impressions_insight =
     [(''date_start'', PStr ''2024-05-01''), (''campaign_id'', PStr ''c1''),
      (''campaign_name'', PStr ''Spring''), (''adset_id'', PStr ''s1''),
      (''adset_name'', PStr ''Adults''), (''ad_id'', PStr ''a2''), (''ad_name'', PStr ''Side''),
      (''impressions'', PStr ''0''), (''clicks'', PStr ''5''), (''spend'', PStr ''7.25'')]"

definition no_spend_insight :: pydict where
  "no_spend_insight =
     [(''spend'', PStr ''0''),
      (''action_values'',
       PList [PDict [(''action_type'', PStr ''purchase''), (''value'', PStr ''1'')]])]"

section \<open>Insights that raise nothing\<close>

text \<open>
  An insight is well formed when
  \<^item> it has the seven keys the row reads with \<^verbatim>\<open>ins[...]\<close>, and its ad id can be hashed;
  \<^item> \<^verbatim>\<open>float\<close> accepts its spend, and \<^verbatim>\<open>int\<close> accepts its impressions and its clicks, which
    fit a float;
  \<^item> its actions can be iterated and every entry is a dict whose action type can be hashed
    and, when it is a conversion type, whose value \<^verbatim>\<open>float\<close> reads as a finite number; the
    conversions they add up to fit a float;
  \<^item> its action values can be iterated and every entry is a dict whose action type can be
    hashed and, when it is a conversion type, whose value \<^verbatim>\<open>float\<close> accepts.

  An absent field counts with the default of its \<^verbatim>\<open>get\<close>.
\<close>

definition required_keys :: "string list" where
  "required_keys =
     [''ad_id'', ''date_start'', ''campaign_id'', ''campaign_name'', ''adset_id'',
      ''adset_name'', ''ad_name'']"

definition fits_float :: "int \<Rightarrow> bool" where
  "fits_float n = (\<bar>of_int n :: rat\<bar> < overflow_bound)"

definition conversion_entry_ok :: "pyval \<Rightarrow> bool" where
  "conversion_entry_ok a =
     (case a of
        PDict d \<Rightarrow>
          hashable (dict_get d ''action_type'' PNone)
          \<and> (if counted a
              then (case py_float (dict_get d ''value'' (PInt 0)) of
                      Inr (Finite x) \<Rightarrow> True
                    | _ \<Rightarrow> False)
              else True)
      | _ \<Rightarrow> False)"

definition value_entry_ok :: "pyval \<Rightarrow> bool" where
  "value_entry_ok a =
     (case a of
        PDict d \<Rightarrow>
          hashable (dict_get d ''action_type'' PNone)
          \<and> (if counted a
              then (case py_float (dict_get d ''value'' (PInt 0)) of
                      Inr f \<Rightarrow> True
                    | Inl e \<Rightarrow> False)
              else True)
      | _ \<Rightarrow> False)"

definition well_formed_insight :: "pydict \<Rightarrow> bool" where
  "well_formed_insight ins =
     (list_all (\<lambda>k. map_of ins k \<noteq> None) required_keys
      \<and> hashable (dict_get ins ''ad_id'' PNone)
      \<and> (case py_float (dict_get ins ''spend'' (PInt 0)) of Inl e \<Rightarrow> False | Inr s \<Rightarrow> True)
      \<and> (case py_int (dict_get ins ''impressions'' (PInt 0)) of
            Inl e \<Rightarrow> False | Inr n \<Rightarrow> fits_float n)
      \<and> (case py_int (dict_get ins ''clicks'' (PInt 0)) of
            Inl e \<Rightarrow> False | Inr n \<Rightarrow> fits_float n)
      \<and> (case py_iter (dict_get ins ''actions'' (PList [])) of
            Inl e \<Rightarrow> False
          | Inr actions \<Rightarrow> list_all conversion_entry_ok actions \<and> fits_float (spec_conversions actions))
      \<and> (case py_iter (dict_get ins ''action_values'' (PList [])) of
            Inl e \<Rightarrow> False
          | Inr vals \<Rightarrow> list_all value_entry_ok vals))"

text \<open>
  The defaults of the fields a row reads with \<^verbatim>\<open>get\<close>: those of the insight, and those of
  the creative when the ad id is not a key of the lookup.
\<close>

definition absent_from :: "(string \<times> pydict) list \<Rightarrow> pyval \<Rightarrow> bool" where
  "absent_from creative_details k =
     (case k of PStr a \<Rightarrow> map_of creative_details a = None | _ \<Rightarrow> True)"

definition defaults_applied :: "(string \<times> pydict) list \<Rightarrow> pydict \<Rightarrow> row \<Rightarrow> bool" where
  "defaults_applied creative_details ins r =
     ((if map_of ins ''impressions'' = None
       then impressions r = 0 \<and> ctr r = NInt 0 \<and> cpm r = NInt 0 else True)
      \<and> (if map_of ins ''clicks'' = None then clicks r = 0 else True)
      \<and> (if map_of ins ''spend'' = None then spend r = Finite 0 \<and> roas r = NInt 0 else True)
      \<and> (if map_of ins ''actions'' = None then conversions r = 0 \<and> cpa r = NInt 0 else True)
      \<and> (if map_of ins ''action_values'' = None then conversion_value r = Finite 0 else True)
      \<and> (if absent_from creative_details (dict_get ins ''ad_id'' PNone)
          then creative_id r = PNone \<and> creative_name r = PNone \<and> creative_type r = ''Unknown''
               \<and> image_hash r = PNone \<and> video_id r = PNone
          else True))"

text \<open>An insight with the seven keys only, its row, and one whose impressions are not an int.\<close>

definition sparse_insight :: pydict where
  "sparse_insight =
     [(''date_start'', PStr ''2024-05-01''), (''campaign_id'', PStr ''c1''),
      (''campaign_name'', PStr ''Spring''), (''adset_id'', PStr ''s1''),
      (''adset_name'', PStr ''Adults''), (''ad_id'', PStr ''a9''), (''ad_name'', PStr ''Bare'')]"

definition sparse_row :: row where
  "sparse_row =
     \<lparr> date = PStr ''2024-05-01'', campaign_id = PStr ''c1'', campaign_name = PStr ''Spring'',
       adset_id = PStr ''s1'', adset_name = PStr ''Adults'', ad_id = PStr ''a9'',
       ad_name = PStr ''Bare'', creative_id = PNone, creative_name = PNone,
       creative_type = ''Unknown'', image_hash = PNone, video_id = PNone,
       spend = Finite 0, impressions = 0, clicks = 0, conversions = 0,
       conversion_value = Finite 0, cpa = NInt 0, roas = NInt 0,
       ctr = NInt 0, cpm = NInt 0 \<rparr>"

definition fractional_impressions_insight :: pydict where
  "fractional_impressions_insight = (''impressions'', PStr ''12.5'') # sparse_insight"

lemma overflow_bound_numeral [code]:
  "overflow_bound = 179769313486231580793728971405303415079934132710037826936173778980444968292764750946649017977587207096330286416692887910946555547851940402630657488671505820681908902000708383676273854845817711531764475730270069855571366959622842914819860834936475292719074168444365510704342711559699508093042880177904174497792"
  by (simp add: overflow_bound_def)

section \<open>Sequencing\<close>

lemma and_then_Inr [simp]: "and_then (Inr x) f = f x"
  by (simp add: and_then_def)

lemma and_then_Inl [simp]: "and_then (Inl e) f = Inl e"
  by (simp add: and_then_def)

lemma and_then_eq_Inr: "and_then m f = Inr y \<longleftrightarrow> (\<exists>x. m = Inr x \<and> f x = Inr y)"
  by (cases m) simp_all

section \<open>The rows of a report\<close>

lemma append_rows_acc:
  "append_rows insights cd acc = map_sum id ((@) acc) (append_rows insights cd [])"
proof (induction insights arbitrary: acc)
  case Nil
  show ?case by simp
next
  case (Cons ins insights)
  show ?case
  proof (cases "process_insight ins cd")
    case (Inl e)
    then show ?thesis by simp
  next
    case (Inr r)
    have "append_rows (ins # insights) cd acc = append_rows insights cd (acc @ [r])"
      using Inr by simp
    also have "\<dots> = map_sum id ((@) (acc @ [r])) (append_rows insights cd [])"
      by (rule Cons.IH)
    also have "\<dots> = map_sum id ((@) acc) (map_sum id ((@) [r]) (append_rows insights cd []))"
      by (cases "append_rows insights cd []") simp_all
    also have "map_sum id ((@) [r]) (append_rows insights cd []) = append_rows insights cd [r]"
      by (rule Cons.IH [symmetric])
    also have "append_rows insights cd [r] = append_rows (ins # insights) cd []"
      using Inr by simp
    finally show ?thesis .
  qed
qed

lemma append_rows_eq_Inr:
  "append_rows insights cd [] = Inr rows \<longleftrightarrow>
   map (\<lambda>ins. process_insight ins cd) insights = map Inr rows"
proof (induction insights arbitrary: rows)
  case Nil
  show ?case by auto
next
  case (Cons ins insights)
  show ?case
  proof (cases "process_insight ins cd")
    case (Inl e)
    then show ?thesis by (cases rows) simp_all
  next
    case (Inr r)
    have step: "append_rows (ins # insights) cd [] = map_sum id ((@) [r]) (append_rows insights cd [])"
      using Inr append_rows_acc [of insights cd "[r]"] by simp
    show ?thesis
    proof (cases "append_rows insights cd []")
      case (Inl e)
      have "\<And>rs. map (\<lambda>ins. process_insight ins cd) insights \<noteq> map Inr rs"
        using Cons.IH Inl by (metis sum.distinct(1))
      then show ?thesis using step Inl Inr by (cases rows) simp_all
    next
      case (Inr rs)
      then have "map (\<lambda>ins. process_insight ins cd) insights = map Inr rs"
        using Cons.IH by simp
      then show ?thesis using step Inr \<open>process_insight ins cd = Inr r\<close>
        by (cases rows) (auto simp: inj_map_eq_map [OF inj_Inr])
    qed
  qed
qed

text \<open>
  Claim C10. \<^verbatim>\<open>process_creative_data\<close> returns a list of rows exactly when every insight
  yields its row, and the list is then the rows of the insights, one for each, in the
  order of the insights: nothing is dropped, repeated or moved. (When an insight raises,
  the call raises and returns no list.)
\<close>

theorem one_row_per_insight_in_order:
  "process_creative_data insights creative_details = Inr rows \<longleftrightarrow>
   map (\<lambda>ins. process_insight ins creative_details) insights = map Inr rows"
  unfolding process_creative_data_def by (rule append_rows_eq_Inr)

text \<open>
  Claim C8. No insight gives the empty list of rows, not an exception; \<^verbatim>\<open>save_to_csv\<close>
  on no rows returns \<^verbatim>\<open>False\<close> and leaves every file as it was; on one row or more it
  always calls \<^verbatim>\<open>to_csv\<close> on the sorted rows: the file then holds them and the result is
  \<^verbatim>\<open>True\<close>, or the write fails and its error escapes.
\<close>

theorem empty_report_is_not_written:
  "process_creative_data [] creative_details = Inr []
   \<and> save_to_csv sort_values [] path w = (Inr False, w)
   \<and> save_to_csv sort_values (r # rs) path w =
       (if writable w path
        then (Inr True, w\<lparr>files := (files w)(path \<mapsto> sort_values (r # rs))\<rparr>)
        else (Inl OSError, w))"
  by (simp add: process_creative_data_def save_to_csv_def to_csv_def)

section \<open>Rounding never turns a non-zero int into zero\<close>

lemma round_half_even_zero:
  assumes "round_half_even y = 0"
  shows "\<bar>y\<bar> \<le> 1 / 2"
proof -
  have fl: "of_int \<lfloor>y\<rfloor> \<le> y" "y < of_int \<lfloor>y\<rfloor> + 1"
    by linarith+
  consider "\<lfloor>y\<rfloor> = 0" "y - of_int \<lfloor>y\<rfloor> \<le> 1 / 2" | "\<lfloor>y\<rfloor> = - 1" "1 / 2 \<le> y - of_int \<lfloor>y\<rfloor>"
    using assms unfolding round_half_even_def Let_def
    by (auto split: if_splits)
  then show ?thesis
    using fl by cases auto
qed

lemma floor_log2_le:
  assumes "0 < a"
  shows "2 powi (floor_log2 a) \<le> a"
proof -
  obtain p q where pq: "quotient_of a = (p, q)"
    by (cases "quotient_of a")
  have q: "0 < q" using pq by (rule quotient_of_denom_pos)
  have a: "a = of_int p / of_int q" using pq by (rule quotient_of_div)
  have p: "0 < p" using assms q a by (simp add: zero_less_divide_iff)
  define k where "k = bitlen p - bitlen q"
  have bp: "2 ^ nat (bitlen p - 1) \<le> p" using bitlen_bounds [OF p] by simp
  have bq: "q < 2 ^ nat (bitlen q)" using bitlen_bounds [OF q] by simp
  have bp1: "1 \<le> bitlen p" using p bitlen_nonneg [of "p div 2"] by (subst compute_bitlen) simp
  have lo: "(2::rat) powi (bitlen p - 1) \<le> of_int p"
  proof -
    have "(2::rat) powi (bitlen p - 1) = 2 ^ nat (bitlen p - 1)"
      using bp1 by (simp add: power_int_def)
    also have "\<dots> = of_int (2 ^ nat (bitlen p - 1))" by simp
    also have "\<dots> \<le> of_int p" using bp by (simp only: of_int_le_iff)
    finally show ?thesis .
  qed
  have hi: "of_int q < (2::rat) powi (bitlen q)"
  proof -
    have "of_int q < (of_int (2 ^ nat (bitlen q)) :: rat)" using bq by (simp only: of_int_less_iff)
    also have "\<dots> = 2 powi (bitlen q)"
      using bitlen_nonneg [of q] by (simp add: power_int_def)
    finally show ?thesis .
  qed
  have "(2::rat) powi (k - 1) = 2 powi (bitlen p - 1) / 2 powi (bitlen q)"
  proof -
    have "k - 1 = (bitlen p - 1) - bitlen q" unfolding k_def by simp
    then show ?thesis by (simp only: power_int_diff [of "2::rat", simplified])
  qed
  also have "\<dots> \<le> of_int p / 2 powi (bitlen q)"
    using lo by (simp add: divide_right_mono)
  also have "\<dots> \<le> of_int p / of_int q"
    using hi p q by (simp add: frac_le)
  finally have km: "(2::rat) powi (k - 1) \<le> a" using a by simp
  show ?thesis
    using km unfolding floor_log2_def Let_def pq k_def by simp
qed

lemma float_of_rat_nonzero:
  assumes "1 \<le> \<bar>x\<bar>"
  shows "float_of_rat x \<noteq> Finite 0"
proof
  assume z: "float_of_rat x = Finite 0"
  define e where "e = max (floor_log2 \<bar>x\<bar> - 52) (- 1074)"
  have x0: "x \<noteq> 0" using assms by auto
  have pos: "(0::rat) < 2 powi e" by (simp add: zero_less_power_int)
  have "round_half_even (x / 2 powi e) = 0"
    using z x0 pos unfolding float_of_rat_def Let_def e_def [symmetric]
    by (auto split: if_splits)
  then have "\<bar>x / 2 powi e\<bar> \<le> 1 / 2" by (rule round_half_even_zero)
  then have le: "\<bar>x\<bar> \<le> 2 powi e / 2"
    using pos by (simp add: abs_divide field_simps)
  have "2 powi e / 2 < \<bar>x\<bar>"
  proof (cases "floor_log2 \<bar>x\<bar> - 52 \<le> - 1074")
    case True
    then have "e = - 1074" unfolding e_def by simp
    moreover have "((1::rat) / 2) ^ 1074 \<le> 1" by (rule power_le_one) simp_all
    ultimately have "(2::rat) powi e / 2 < 1" by (simp add: power_int_def)
    then show ?thesis using assms by linarith
  next
    case False
    then have e: "e = floor_log2 \<bar>x\<bar> - 52" unfolding e_def by simp
    have "(2::rat) powi e \<le> 2 powi (floor_log2 \<bar>x\<bar>)"
      unfolding e by (rule power_int_increasing) simp_all
    also have "\<dots> \<le> \<bar>x\<bar>" using x0 by (intro floor_log2_le) simp
    finally show ?thesis using pos by linarith
  qed
  then show False using le by simp
qed

lemma int_to_float_nonzero:
  assumes "n \<noteq> 0" and "int_to_float n = Inr b"
  shows "b \<noteq> Finite 0"
proof -
  have "1 \<le> \<bar>of_int n :: rat\<bar>" using assms(1) by (simp flip: of_int_abs)
  then have "float_of_rat (of_int n) \<noteq> Finite 0" by (rule float_of_rat_nonzero)
  then show ?thesis using assms(2) unfolding int_to_float_def by (auto split: pyfloat.splits)
qed

lemma float_div_int_no_zero_division:
  "n \<noteq> 0 \<Longrightarrow> float_div_int a n \<noteq> Inl ZeroDivisionError"
  unfolding float_div_int_def
  by (cases "int_to_float n") (auto simp: float_div_def int_to_float_def dest: int_to_float_nonzero split: pyfloat.splits)

section \<open>Whole numbers of hundredths, and ints that are floats\<close>

lemma round_half_even_near: "\<bar>of_int (round_half_even y) - y\<bar> \<le> 1 / 2"
proof -
  have fl: "of_int \<lfloor>y\<rfloor> \<le> y" "y < of_int \<lfloor>y\<rfloor> + 1"
    by linarith+
  show ?thesis
    using fl unfolding round_half_even_def Let_def by (auto simp: abs_le_iff)
qed

lemma round_half_even_of_int: "round_half_even (of_int k) = k"
  by (simp add: round_half_even_def)

lemma hundredths_rounded: "rounded_to_2_places x (of_int (round_half_even (x * 100)) / 100)"
proof -
  have "\<bar>of_int (round_half_even (x * 100)) - x * 100\<bar> \<le> 1 / 2"
    by (rule round_half_even_near)
  then have "\<bar>of_int (round_half_even (x * 100)) / 100 - x\<bar> \<le> 1 / 200"
    by (simp add: abs_le_iff field_simps)
  then show ?thesis by (simp add: rounded_to_2_places_def)
qed

lemma float_of_rat_int_exact:
  assumes "\<bar>n\<bar> < 2 ^ 53"
  shows "float_of_rat (of_int n) = Finite (of_int n)"
proof (cases "n = 0")
  case True
  then show ?thesis by (simp add: float_of_rat_def)
next
  case False
  let ?x = "of_int n :: rat"
  define e where "e = max (floor_log2 \<bar>?x\<bar> - 52) (- 1074)"
  have x0: "?x \<noteq> 0" using False by simp
  have ax: "\<bar>?x\<bar> < 2 ^ 53"
    using assms by (simp flip: of_int_abs add: of_int_less_numeral_power_cancel_iff)
  have small: "\<not> overflow_bound \<le> \<bar>?x\<bar>" using ax by (simp add: overflow_bound_numeral)
  have "(2::rat) powi (floor_log2 \<bar>?x\<bar>) \<le> \<bar>?x\<bar>" using x0 by (intro floor_log2_le) simp
  then have "(2::rat) powi (floor_log2 \<bar>?x\<bar>) < 2 powi 53" using ax by simp
  moreover have "53 \<le> floor_log2 \<bar>?x\<bar> \<Longrightarrow>
                 (2::rat) powi 53 \<le> 2 powi (floor_log2 \<bar>?x\<bar>)"
    by (rule power_int_increasing) simp_all
  ultimately have "floor_log2 \<bar>?x\<bar> < 53" by fastforce
  then have e: "e \<le> 0" "- 1074 \<le> e" unfolding e_def by simp_all
  define k where "k = nat (- e)"
  have ek: "e = - int k" using e unfolding k_def by simp
  have p: "(2::rat) powi e = 1 / 2 ^ k" unfolding ek by (simp add: power_int_minus field_simps)
  have "?x / 2 powi e = of_int (n * 2 ^ k)" unfolding p by simp
  then have "round_half_even (?x / 2 powi e) = n * 2 ^ k" by (simp only: round_half_even_of_int)
  then have "of_int (round_half_even (?x / 2 powi e)) * 2 powi e = ?x" unfolding p by simp
  then show ?thesis
    using x0 small unfolding float_of_rat_def Let_def e_def [symmetric] by simp
qed

section \<open>What \<^verbatim>\<open>calculate_metrics\<close> returns\<close>

lemma calculate_metrics_Inr:
  assumes "calculate_metrics insight = Inr (n, v, c, r)"
  shows "\<exists>s actions vals c0 r0.
           py_float (dict_get insight ''spend'' (PInt 0)) = Inr s
           \<and> py_iter (dict_get insight ''actions'' (PList [])) = Inr actions
           \<and> sum_conversions actions 0 = Inr n
           \<and> py_iter (dict_get insight ''action_values'' (PList [])) = Inr vals
           \<and> sum_conv_value vals (Finite 0) = Inr v
           \<and> cpa_of s n = Inr c0 \<and> roas_of v s = Inr r0
           \<and> c = round2 c0 \<and> r = round2 r0"
  using assms unfolding calculate_metrics_def and_then_eq_Inr by auto




lemma and_then_eq_Inl:
  "and_then m f = Inl e \<longleftrightarrow> m = Inl e \<or> (\<exists>x. m = Inr x \<and> f x = Inl e)"
  by (cases m) simp_all

lemma int_to_float_no_zd: "int_to_float n \<noteq> Inl ZeroDivisionError"
  by (simp add: int_to_float_def split: pyfloat.splits)

lemma py_float_no_zd: "py_float v \<noteq> Inl ZeroDivisionError"
  by (auto simp: py_float_def float_of_str_def Let_def int_to_float_no_zd
      split: pyval.splits option.splits)

lemma float_to_int_no_zd: "float_to_int f \<noteq> Inl ZeroDivisionError"
  by (simp add: float_to_int_def split: pyfloat.splits)

lemma py_int_no_zd: "py_int v \<noteq> Inl ZeroDivisionError"
  by (auto simp: py_int_def int_of_str_def Let_def float_to_int_no_zd split: pyval.splits)

lemma py_iter_no_zd: "py_iter v \<noteq> Inl ZeroDivisionError"
  by (simp add: py_iter_def split: pyval.splits)

lemma val_get_no_zd: "val_get a k d \<noteq> Inl ZeroDivisionError"
  by (simp add: val_get_def split: pyval.splits)

lemma in_str_set_no_zd: "in_str_set t s \<noteq> Inl ZeroDivisionError"
  by (simp add: in_str_set_def)

lemmas no_zd = int_to_float_no_zd py_float_no_zd float_to_int_no_zd py_int_no_zd py_iter_no_zd
  val_get_no_zd in_str_set_no_zd

lemma action_conversions_no_zd: "action_conversions a \<noteq> Inl ZeroDivisionError"
  by (auto simp: action_conversions_def and_then_eq_Inl no_zd)

lemma action_value_no_zd: "action_value a \<noteq> Inl ZeroDivisionError"
  by (auto simp: action_value_def and_then_eq_Inl no_zd)

lemma sum_conversions_no_zd: "sum_conversions actions acc \<noteq> Inl ZeroDivisionError"
  by (induction actions arbitrary: acc)
    (auto simp: action_conversions_no_zd split: sum.splits option.splits)

lemma sum_conv_value_no_zd: "sum_conv_value vals acc \<noteq> Inl ZeroDivisionError"
  by (induction vals arbitrary: acc)
    (auto simp: action_value_no_zd split: sum.splits option.splits)

lemma cpa_of_no_zd: "cpa_of s n \<noteq> Inl ZeroDivisionError"
  by (auto simp: cpa_of_def and_then_eq_Inl float_div_int_no_zero_division)

lemma roas_of_no_zd: "roas_of v s \<noteq> Inl ZeroDivisionError"
  by (auto simp: roas_of_def and_then_eq_Inl float_div_def float_truthy_def)

lemma calculate_metrics_no_zd: "calculate_metrics insight \<noteq> Inl ZeroDivisionError"
  by (auto simp: calculate_metrics_def and_then_eq_Inl no_zd sum_conversions_no_zd
      sum_conv_value_no_zd cpa_of_no_zd roas_of_no_zd)

section \<open>What a row holds\<close>

lemma process_insight_Inr:
  assumes "process_insight ins cd = Inr r"
  shows "\<exists>aid c m.
           dict_item ins ''ad_id'' = Inr aid \<and> lookup_creative cd aid = Inr c
           \<and> calculate_metrics ins = Inr m
           \<and> py_int (dict_get ins ''impressions'' (PInt 0)) = Inr (impressions r)
           \<and> py_int (dict_get ins ''clicks'' (PInt 0)) = Inr (clicks r)
           \<and> py_float (dict_get ins ''spend'' (PInt 0)) = Inr (spend r)
           \<and> ctr_of (clicks r) (impressions r) = Inr (ctr r)
           \<and> cpm_of (spend r) (impressions r) = Inr (cpm r)
           \<and> ad_id r = aid
           \<and> creative_id r = dict_get_none c ''creative_id''
           \<and> creative_type r = ctype_of c
           \<and> conversions r = fst m \<and> conversion_value r = fst (snd m)
           \<and> cpa r = fst (snd (snd m)) \<and> roas r = snd (snd (snd m))"
  using assms unfolding process_insight_def and_then_eq_Inr by auto

lemma dict_item_no_zd: "dict_item d k \<noteq> Inl ZeroDivisionError"
  by (simp add: dict_item_def split: option.splits)

lemma lookup_creative_no_zd: "lookup_creative cd k \<noteq> Inl ZeroDivisionError"
  by (simp add: lookup_creative_def)

lemma int_truediv_no_zd: "b \<noteq> 0 \<Longrightarrow> int_truediv a b \<noteq> Inl ZeroDivisionError"
  by (simp add: int_truediv_def split: pyfloat.splits)

lemma float_mul_int_no_zd: "float_mul_int a n \<noteq> Inl ZeroDivisionError"
  by (auto simp: float_mul_int_def and_then_eq_Inl int_to_float_no_zd)

lemma ctr_of_no_zd: "ctr_of c i \<noteq> Inl ZeroDivisionError"
  by (auto simp: ctr_of_def and_then_eq_Inl int_truediv_no_zd float_mul_int_no_zd)

lemma cpm_of_no_zd: "cpm_of s i \<noteq> Inl ZeroDivisionError"
  by (auto simp: cpm_of_def and_then_eq_Inl float_div_int_no_zero_division float_mul_int_no_zd)

lemma process_insight_no_zd: "process_insight ins cd \<noteq> Inl ZeroDivisionError"
  unfolding process_insight_def
  by (simp add: and_then_eq_Inl dict_item_no_zd lookup_creative_no_zd calculate_metrics_no_zd
      py_int_no_zd py_float_no_zd ctr_of_no_zd cpm_of_no_zd)

section \<open>The examples, evaluated\<close>

lemma example_insight_row: "process_insight example_insight [] = Inr example_row"
  by code_simp

lemma example_insight_row_video:
  "process_insight example_insight example_creatives = Inr example_row_video"
  by code_simp

section \<open>The metrics\<close>



text \<open>
  Claim C4. \<^verbatim>\<open>calculate_metrics\<close> never raises \<^verbatim>\<open>ZeroDivisionError\<close>; when it returns, the cpa
  is the int 0 if there are no conversions, and otherwise \<^verbatim>\<open>round(spend / conversions, 2)\<close>,
  where the divisor, the conversions as a float, is not zero. For a finite spend and
  conversions below \<open>2 ^ 53\<close> in size, the cpa is then the float nearest to a whole number
  of hundredths that lies within half a hundredth of the quotient (the float nearest to
  the exact quotient of the spend by the conversions). With spend 3 and 7 conversions the
  quotient 0.428571... is not a whole number of hundredths, and the cpa is the float 0.43.
\<close>

theorem cpa_formula:
  "calculate_metrics insight \<noteq> Inl ZeroDivisionError
   \<and> (\<forall>n v c r. calculate_metrics insight = Inr (n, v, c, r) \<longrightarrow>
        (\<exists>s. py_float (dict_get insight ''spend'' (PInt 0)) = Inr s
              \<and> (if n = 0 then c = NInt 0
                  else (\<exists>b q. int_to_float n = Inr b \<and> b \<noteq> Finite 0
                              \<and> float_div s b = Inr q \<and> c = NFloat (float_round2 q))
                       \<and> (\<forall>a x. s = Finite a \<and> \<bar>n\<bar> < 2 ^ 53
                                  \<and> float_of_rat (a / of_int n) = Finite x \<longrightarrow>
                              (\<exists>y. rounded_to_2_places x y \<and> c = NFloat (float_of_rat y))))))"
proof (intro conjI allI impI)
  show "calculate_metrics insight \<noteq> Inl ZeroDivisionError"
    by (rule calculate_metrics_no_zd)
next
  fix n v c r
  assume "calculate_metrics insight = Inr (n, v, c, r)"
  from calculate_metrics_Inr [OF this]
  obtain s c0 where s: "py_float (dict_get insight ''spend'' (PInt 0)) = Inr s"
    and c0: "cpa_of s n = Inr c0" "c = round2 c0"
    by blast
  show "\<exists>s. py_float (dict_get insight ''spend'' (PInt 0)) = Inr s
             \<and> (if n = 0 then c = NInt 0
                 else (\<exists>b q. int_to_float n = Inr b \<and> b \<noteq> Finite 0
                             \<and> float_div s b = Inr q \<and> c = NFloat (float_round2 q))
                      \<and> (\<forall>a x. s = Finite a \<and> \<bar>n\<bar> < 2 ^ 53
                                 \<and> float_of_rat (a / of_int n) = Finite x \<longrightarrow>
                             (\<exists>y. rounded_to_2_places x y \<and> c = NFloat (float_of_rat y))))"
  proof (cases "n = 0")
    case True
    then show ?thesis using s c0 by (auto simp: cpa_of_def round2_def)
  next
    case False
    then obtain b q where bq: "int_to_float n = Inr b" "float_div s b = Inr q" "c0 = NFloat q"
      using c0(1) by (auto simp: cpa_of_def float_div_int_def and_then_eq_Inr)
    have c: "c = NFloat (float_round2 q)" using bq(3) c0(2) by (simp add: round2_def)
    have b0: "b \<noteq> Finite 0" using False bq(1) by (rule int_to_float_nonzero)
    have "\<exists>y. rounded_to_2_places x y \<and> c = NFloat (float_of_rat y)"
      if h: "s = Finite a" "\<bar>n\<bar> < 2 ^ 53" "float_of_rat (a / of_int n) = Finite x" for a x
    proof -
      have "b = Finite (of_int n)"
        using bq(1) float_of_rat_int_exact [OF h(2)] by (simp add: int_to_float_def)
      then have "q = Finite x" using bq(2) h(1,3) False by (simp add: float_div_def)
      then have "c = NFloat (float_of_rat (of_int (round_half_even (x * 100)) / 100))"
        using c by (simp add: float_round2_def)
      then show ?thesis using hundredths_rounded [of x] by blast
    qed
    then show ?thesis using False s bq(1,2) b0 c by auto
  qed
qed

theorem cpa_formula_witness:
  "calculate_metrics sevenths_insight \<noteq> Inl ZeroDivisionError
   \<and> calculate_metrics sevenths_insight
     = Inr (7, Finite 1, NFloat (Finite (7746191359077253 / 18014398509481984)),
            NFloat (Finite (5944751508129055 / 18014398509481984)))
   \<and> py_float (dict_get sevenths_insight ''spend'' (PInt 0)) = Inr (Finite 3)
   \<and> \<bar>7 :: int\<bar> < 2 ^ 53
   \<and> float_of_rat (3 / of_int 7) = Finite (7720456504063707 / 18014398509481984)
   \<and> (\<exists>y. rounded_to_2_places (7720456504063707 / 18014398509481984) y
          \<and> NFloat (Finite (7746191359077253 / 18014398509481984)) = NFloat (float_of_rat y))
   \<and> rounded_to_2_places (7720456504063707 / 18014398509481984) (43 / 100)
   \<and> float_of_rat (43 / 100) = Finite (7746191359077253 / 18014398509481984)
   \<and> \<not> rounded_to_2_places (7720456504063707 / 18014398509481984)
          (7720456504063707 / 18014398509481984)
   \<and> calculate_metrics no_spend_insight = Inr (0, Finite 1, NInt 0, NInt 0)"
proof -
  have m: "calculate_metrics sevenths_insight
     = Inr (7, Finite 1, NFloat (Finite (7746191359077253 / 18014398509481984)),
            NFloat (Finite (5944751508129055 / 18014398509481984)))"
    by code_simp
  have s: "py_float (dict_get sevenths_insight ''spend'' (PInt 0)) = Inr (Finite 3)"
    by code_simp
  have n: "\<bar>7 :: int\<bar> < 2 ^ 53" by simp
  have q: "float_of_rat (3 / of_int 7) = Finite (7720456504063707 / 18014398509481984)"
    by code_simp
  have y: "rounded_to_2_places (7720456504063707 / 18014398509481984) (43 / 100)"
    by code_simp
  have f: "float_of_rat (43 / 100) = Finite (7746191359077253 / 18014398509481984)"
    by code_simp
  have u: "\<not> rounded_to_2_places (7720456504063707 / 18014398509481984)
          (7720456504063707 / 18014398509481984)"
    by code_simp
  have k: "calculate_metrics no_spend_insight = Inr (0, Finite 1, NInt 0, NInt 0)"
    by code_simp
  have z: "calculate_metrics sevenths_insight \<noteq> Inl ZeroDivisionError"
    using cpa_formula [of sevenths_insight] by simp
  have e: "\<exists>y. rounded_to_2_places (7720456504063707 / 18014398509481984) y
          \<and> NFloat (Finite (7746191359077253 / 18014398509481984)) = NFloat (float_of_rat y)"
    using cpa_formula [of sevenths_insight] m s n q by auto
  show ?thesis using z m s n q e y f u k by (intro conjI)
qed

text \<open>
  Claim C5. When \<^verbatim>\<open>calculate_metrics\<close> returns, the roas is the int 0 if the spend is zero, and
  otherwise (so whenever the spend is positive) \<^verbatim>\<open>round(conv_value / spend, 2)\<close>. For a finite
  spend and conversion value, the roas is then the float nearest to a whole number of
  hundredths that lies within half a hundredth of the quotient (the float nearest to the
  exact quotient of the conversion value by the spend). With conversion value 1 and spend
  3 the quotient 0.333... is not a whole number of hundredths, and the roas is the float
  0.33; with spend 0 and conversion value 1 the roas is 0.
\<close>

theorem roas_formula:
  assumes "calculate_metrics insight = Inr (n, v, c, r)"
  shows "\<exists>s. py_float (dict_get insight ''spend'' (PInt 0)) = Inr s
             \<and> (if s = Finite 0 then r = NInt 0
                 else (\<exists>q. float_div v s = Inr q \<and> r = NFloat (float_round2 q))
                      \<and> (\<forall>a b x. s = Finite a \<and> v = Finite b
                                    \<and> float_of_rat (b / a) = Finite x \<longrightarrow>
                             (\<exists>y. rounded_to_2_places x y \<and> r = NFloat (float_of_rat y))))"
proof -
  from calculate_metrics_Inr [OF assms]
  obtain s r0 where s: "py_float (dict_get insight ''spend'' (PInt 0)) = Inr s"
    and r0: "roas_of v s = Inr r0" "r = round2 r0"
    by blast
  show ?thesis
  proof (cases "s = Finite 0")
    case True
    then show ?thesis using s r0 by (auto simp: roas_of_def round2_def float_truthy_def)
  next
    case False
    then obtain q where q: "float_div v s = Inr q" "r0 = NFloat q"
      using r0(1) by (auto simp: roas_of_def float_truthy_def and_then_eq_Inr)
    have r: "r = NFloat (float_round2 q)" using q(2) r0(2) by (simp add: round2_def)
    have "\<exists>y. rounded_to_2_places x y \<and> r = NFloat (float_of_rat y)"
      if h: "s = Finite a" "v = Finite b" "float_of_rat (b / a) = Finite x" for a b x
    proof -
      have "a \<noteq> 0" using False h(1) by simp
      then have "q = Finite x" using q(1) h by (simp add: float_div_def)
      then have "r = NFloat (float_of_rat (of_int (round_half_even (x * 100)) / 100))"
        using r by (simp add: float_round2_def)
      then show ?thesis using hundredths_rounded [of x] by blast
    qed
    then show ?thesis using False s q(1) r by auto
  qed
qed

theorem roas_formula_witness:
  "calculate_metrics sevenths_insight
     = Inr (7, Finite 1, NFloat (Finite (7746191359077253 / 18014398509481984)),
            NFloat (Finite (5944751508129055 / 18014398509481984)))
   \<and> py_float (dict_get sevenths_insight ''spend'' (PInt 0)) = Inr (Finite 3)
   \<and> float_of_rat (1 / 3) = Finite (6004799503160661 / 18014398509481984)
   \<and> (\<exists>y. rounded_to_2_places (6004799503160661 / 18014398509481984) y
          \<and> NFloat (Finite (5944751508129055 / 18014398509481984)) = NFloat (float_of_rat y))
   \<and> rounded_to_2_places (6004799503160661 / 18014398509481984) (33 / 100)
   \<and> float_of_rat (33 / 100) = Finite (5944751508129055 / 18014398509481984)
   \<and> \<not> rounded_to_2_places (6004799503160661 / 18014398509481984)
          (6004799503160661 / 18014398509481984)
   \<and> calculate_metrics no_spend_insight = Inr (0, Finite 1, NInt 0, NInt 0)
   \<and> py_float (dict_get no_spend_insight ''spend'' (PInt 0)) = Inr (Finite 0)"
proof -
  have m: "calculate_metrics sevenths_insight
     = Inr (7, Finite 1, NFloat (Finite (7746191359077253 / 18014398509481984)),
            NFloat (Finite (5944751508129055 / 18014398509481984)))"
    by code_simp
  have s: "py_float (dict_get sevenths_insight ''spend'' (PInt 0)) = Inr (Finite 3)"
    by code_simp
  have q: "float_of_rat (1 / 3) = Finite (6004799503160661 / 18014398509481984)"
    by code_simp
  have y: "rounded_to_2_places (6004799503160661 / 18014398509481984) (33 / 100)"
    by code_simp
  have f: "float_of_rat (33 / 100) = Finite (5944751508129055 / 18014398509481984)"
    by code_simp
  have u: "\<not> rounded_to_2_places (6004799503160661 / 18014398509481984)
          (6004799503160661 / 18014398509481984)"
    by code_simp
  have k: "calculate_metrics no_spend_insight = Inr (0, Finite 1, NInt 0, NInt 0)"
    by code_simp
  have e: "\<exists>y. rounded_to_2_places (6004799503160661 / 18014398509481984) y
          \<and> NFloat (Finite (5944751508129055 / 18014398509481984)) = NFloat (float_of_rat y)"
    using roas_formula [OF m] s q by auto
  have z: "py_float (dict_get no_spend_insight ''spend'' (PInt 0)) = Inr (Finite 0)"
    using roas_formula [OF k] by (auto split: if_splits)
  show ?thesis using m s q e y f u k z by (intro conjI)
qed

text \<open>
  Claim C6. Building a row never raises \<^verbatim>\<open>ZeroDivisionError\<close>; the row holds the impressions,
  clicks and spend read from the insight; with no impressions its ctr and cpm are the int 0
  whatever the clicks and the spend, and otherwise ctr is
  \<^verbatim>\<open>round(clicks / impressions * 100, 2)\<close> and cpm is \<^verbatim>\<open>round(spend / impressions * 1000, 2)\<close>.
  When the quotient and the product are finite (and, for cpm, the impressions are below
  \<open>2 ^ 53\<close> in size), each is the float nearest to a whole number of hundredths that lies
  within half a hundredth of the product: the float nearest to 100 (or 1000) times the
  float nearest to the exact quotient. With 1 click, spend 3 and 7 impressions, ctr is the
  float 14.29 and cpm the float 428.57.
\<close>

theorem ctr_cpm_formula:
  "process_insight ins creative_details \<noteq> Inl ZeroDivisionError
   \<and> (\<forall>r. process_insight ins creative_details = Inr r \<longrightarrow>
        py_int (dict_get ins ''impressions'' (PInt 0)) = Inr (impressions r)
        \<and> py_int (dict_get ins ''clicks'' (PInt 0)) = Inr (clicks r)
        \<and> py_float (dict_get ins ''spend'' (PInt 0)) = Inr (spend r)
        \<and> (if impressions r = 0 then ctr r = NInt 0 \<and> cpm r = NInt 0
            else (\<exists>q1 p1 q2 p2.
                    int_truediv (clicks r) (impressions r) = Inr q1
                    \<and> float_mul_int q1 100 = Inr p1 \<and> ctr r = NFloat (float_round2 p1)
                    \<and> float_div_int (spend r) (impressions r) = Inr q2
                    \<and> float_mul_int q2 1000 = Inr p2 \<and> cpm r = NFloat (float_round2 p2))
                 \<and> (\<forall>x p. float_of_rat (of_int (clicks r) / of_int (impressions r)) = Finite x
                            \<and> float_of_rat (x * 100) = Finite p \<longrightarrow>
                        (\<exists>y. rounded_to_2_places p y \<and> ctr r = NFloat (float_of_rat y)))
                 \<and> (\<forall>a x p. spend r = Finite a \<and> \<bar>impressions r\<bar> < 2 ^ 53
                              \<and> float_of_rat (a / of_int (impressions r)) = Finite x
                              \<and> float_of_rat (x * 1000) = Finite p \<longrightarrow>
                        (\<exists>y. rounded_to_2_places p y \<and> cpm r = NFloat (float_of_rat y)))))"
proof (intro conjI allI impI)
  show "process_insight ins creative_details \<noteq> Inl ZeroDivisionError"
    by (rule process_insight_no_zd)
next
  fix r
  assume a: "process_insight ins creative_details = Inr r"
  show "py_int (dict_get ins ''impressions'' (PInt 0)) = Inr (impressions r)"
    using process_insight_Inr [OF a] by blast
  show "py_int (dict_get ins ''clicks'' (PInt 0)) = Inr (clicks r)"
    using process_insight_Inr [OF a] by blast
  show "py_float (dict_get ins ''spend'' (PInt 0)) = Inr (spend r)"
    using process_insight_Inr [OF a] by blast
  from process_insight_Inr [OF a]
  have c: "ctr_of (clicks r) (impressions r) = Inr (ctr r)"
    and m: "cpm_of (spend r) (impressions r) = Inr (cpm r)"
    by blast+
  show "if impressions r = 0 then ctr r = NInt 0 \<and> cpm r = NInt 0
        else (\<exists>q1 p1 q2 p2.
                int_truediv (clicks r) (impressions r) = Inr q1
                \<and> float_mul_int q1 100 = Inr p1 \<and> ctr r = NFloat (float_round2 p1)
                \<and> float_div_int (spend r) (impressions r) = Inr q2
                \<and> float_mul_int q2 1000 = Inr p2 \<and> cpm r = NFloat (float_round2 p2))
             \<and> (\<forall>x p. float_of_rat (of_int (clicks r) / of_int (impressions r)) = Finite x
                        \<and> float_of_rat (x * 100) = Finite p \<longrightarrow>
                    (\<exists>y. rounded_to_2_places p y \<and> ctr r = NFloat (float_of_rat y)))
             \<and> (\<forall>a x p. spend r = Finite a \<and> \<bar>impressions r\<bar> < 2 ^ 53
                          \<and> float_of_rat (a / of_int (impressions r)) = Finite x
                          \<and> float_of_rat (x * 1000) = Finite p \<longrightarrow>
                    (\<exists>y. rounded_to_2_places p y \<and> cpm r = NFloat (float_of_rat y)))"
  proof (cases "impressions r = 0")
    case True
    then show ?thesis using c m by (simp add: ctr_of_def cpm_of_def)
  next
    case False
    obtain q1 p1 where t: "int_truediv (clicks r) (impressions r) = Inr q1"
      "float_mul_int q1 100 = Inr p1" "ctr r = NFloat (float_round2 p1)"
      using c False by (auto simp: ctr_of_def and_then_eq_Inr)
    obtain q2 p2 where d: "float_div_int (spend r) (impressions r) = Inr q2"
      "float_mul_int q2 1000 = Inr p2" "cpm r = NFloat (float_round2 p2)"
      using m False by (auto simp: cpm_of_def and_then_eq_Inr)
    have old: "\<exists>q1 p1 q2 p2.
                int_truediv (clicks r) (impressions r) = Inr q1
                \<and> float_mul_int q1 100 = Inr p1 \<and> ctr r = NFloat (float_round2 p1)
                \<and> float_div_int (spend r) (impressions r) = Inr q2
                \<and> float_mul_int q2 1000 = Inr p2 \<and> cpm r = NFloat (float_round2 p2)"
      using t d by blast
    have f100: "int_to_float 100 = Inr (Finite 100)"
      using float_of_rat_int_exact [of 100] by (simp add: int_to_float_def)
    have f1000: "int_to_float 1000 = Inr (Finite 1000)"
      using float_of_rat_int_exact [of 1000] by (simp add: int_to_float_def)
    have ctr: "\<exists>y. rounded_to_2_places p y \<and> ctr r = NFloat (float_of_rat y)"
      if h: "float_of_rat (of_int (clicks r) / of_int (impressions r)) = Finite x"
        "float_of_rat (x * 100) = Finite p" for x p
    proof -
      have "q1 = Finite x" using t(1) h(1) False by (simp add: int_truediv_def)
      then have "p1 = Finite p"
        using t(2) h(2) f100 by (simp add: float_mul_int_def float_mul_def)
      then have "ctr r = NFloat (float_of_rat (of_int (round_half_even (p * 100)) / 100))"
        using t(3) by (simp add: float_round2_def)
      then show ?thesis using hundredths_rounded [of p] by blast
    qed
    have cpm: "\<exists>y. rounded_to_2_places p y \<and> cpm r = NFloat (float_of_rat y)"
      if h: "spend r = Finite a" "\<bar>impressions r\<bar> < 2 ^ 53"
        "float_of_rat (a / of_int (impressions r)) = Finite x"
        "float_of_rat (x * 1000) = Finite p" for a x p
    proof -
      have "int_to_float (impressions r) = Inr (Finite (of_int (impressions r)))"
        using float_of_rat_int_exact [OF h(2)] by (simp add: int_to_float_def)
      then have "q2 = Finite x"
        using d(1) h(1,3) False by (simp add: float_div_int_def float_div_def)
      then have "p2 = Finite p"
        using d(2) h(4) f1000 by (simp add: float_mul_int_def float_mul_def)
      then have "cpm r = NFloat (float_of_rat (of_int (round_half_even (p * 100)) / 100))"
        using d(3) by (simp add: float_round2_def)
      then show ?thesis using hundredths_rounded [of p] by blast
    qed
    show ?thesis using False old ctr cpm by (simp only: if_False) blast
  qed
qed

theorem ctr_cpm_formula_witness:
  "process_insight sevenths_insight [] \<noteq> Inl ZeroDivisionError
   \<and> process_insight sevenths_insight [] = Inr sevenths_row
   \<and> impressions sevenths_row = 7 \<and> clicks sevenths_row = 1 \<and> spend sevenths_row = Finite 3
   \<and> \<bar>impressions sevenths_row\<bar> < 2 ^ 53
   \<and> float_of_rat (of_int (clicks sevenths_row) / of_int (impressions sevenths_row))
       = Finite (2573485501354569 / 18014398509481984)
   \<and> float_of_rat (2573485501354569 / 18014398509481984 * 100)
       = Finite (2010535547933257 / 140737488355328)
   \<and> (\<exists>y. rounded_to_2_places (2010535547933257 / 140737488355328) y
          \<and> ctr sevenths_row = NFloat (float_of_rat y))
   \<and> rounded_to_2_places (2010535547933257 / 140737488355328) (1429 / 100)
   \<and> ctr sevenths_row = NFloat (float_of_rat (1429 / 100))
   \<and> float_of_rat (3 / of_int (impressions sevenths_row))
       = Finite (7720456504063707 / 18014398509481984)
   \<and> float_of_rat (7720456504063707 / 18014398509481984 * 1000)
       = Finite (3769754152374857 / 8796093022208)
   \<and> (\<exists>y. rounded_to_2_places (3769754152374857 / 8796093022208) y
          \<and> cpm sevenths_row = NFloat (float_of_rat y))
   \<and> rounded_to_2_places (3769754152374857 / 8796093022208) (42857 / 100)
   \<and> cpm sevenths_row = NFloat (float_of_rat (42857 / 100))
   \<and> (\<exists>r. process_insight no_impressions_insight [] = Inr r
          \<and> impressions r = 0 \<and> ctr r = NInt 0 \<and> cpm r = NInt 0)"
proof -
  have w: "process_insight sevenths_insight [] = Inr sevenths_row"
    by code_simp
  have i: "impressions sevenths_row = 7" "clicks sevenths_row = 1" "spend sevenths_row = Finite 3"
    by (simp_all add: sevenths_row_def)
  have nz: "impressions sevenths_row \<noteq> 0" by (simp add: i)
  have n: "\<bar>impressions sevenths_row\<bar> < 2 ^ 53" by (simp add: i)
  have q1: "float_of_rat (of_int (clicks sevenths_row) / of_int (impressions sevenths_row))
            = Finite (2573485501354569 / 18014398509481984)"
    by code_simp
  have p1: "float_of_rat (2573485501354569 / 18014398509481984 * 100)
            = Finite (2010535547933257 / 140737488355328)"
    by code_simp
  have y1: "rounded_to_2_places (2010535547933257 / 140737488355328) (1429 / 100)"
    by code_simp
  have c1: "ctr sevenths_row = NFloat (float_of_rat (1429 / 100))"
    by code_simp
  have q2: "float_of_rat (3 / of_int (impressions sevenths_row))
            = Finite (7720456504063707 / 18014398509481984)"
    by code_simp
  have p2: "float_of_rat (7720456504063707 / 18014398509481984 * 1000)
            = Finite (3769754152374857 / 8796093022208)"
    by code_simp
  have y2: "rounded_to_2_places (3769754152374857 / 8796093022208) (42857 / 100)"
    by code_simp
  have c2: "cpm sevenths_row = NFloat (float_of_rat (42857 / 100))"
    by code_simp
  note t = ctr_cpm_formula [of sevenths_insight "[]"]
  have z: "process_insight sevenths_insight [] \<noteq> Inl ZeroDivisionError"
    using t by (rule conjunct1)
  have f: "(\<forall>x p. float_of_rat (of_int (clicks sevenths_row) / of_int (impressions sevenths_row))
                    = Finite x
                  \<and> float_of_rat (x * 100) = Finite p \<longrightarrow>
              (\<exists>y. rounded_to_2_places p y \<and> ctr sevenths_row = NFloat (float_of_rat y)))
           \<and> (\<forall>a x p. spend sevenths_row = Finite a \<and> \<bar>impressions sevenths_row\<bar> < 2 ^ 53
                    \<and> float_of_rat (a / of_int (impressions sevenths_row)) = Finite x
                    \<and> float_of_rat (x * 1000) = Finite p \<longrightarrow>
              (\<exists>y. rounded_to_2_places p y \<and> cpm sevenths_row = NFloat (float_of_rat y)))"
    using t [THEN conjunct2, THEN spec, THEN mp, OF w] nz
    by (simp only: if_False) blast
  have e1: "\<exists>y. rounded_to_2_places (2010535547933257 / 140737488355328) y
          \<and> ctr sevenths_row = NFloat (float_of_rat y)"
    using f [THEN conjunct1, rule_format, OF conjI [OF q1 p1]] .
  have e2: "\<exists>y. rounded_to_2_places (3769754152374857 / 8796093022208) y
          \<and> cpm sevenths_row = NFloat (float_of_rat y)"
    using f [THEN conjunct2, rule_format, OF conjI [OF i(3) conjI [OF n conjI [OF q2 p2]]]] .
  have v: "map_sum id (\<lambda>r. (impressions r, ctr r, cpm r))
             (process_insight no_impressions_insight []) = Inr (0, NInt 0, NInt 0)"
    by code_simp
  obtain r where r: "process_insight no_impressions_insight [] = Inr r" "impressions r = 0"
    using v by (cases "process_insight no_impressions_insight []") auto
  have "ctr r = NInt 0 \<and> cpm r = NInt 0"
    using ctr_cpm_formula [of no_impressions_insight "[]"] r by simp
  then have e3: "\<exists>r. process_insight no_impressions_insight [] = Inr r
          \<and> impressions r = 0 \<and> ctr r = NInt 0 \<and> cpm r = NInt 0"
    using r by blast
  show ?thesis
    using z w i n q1 p1 e1 y1 c1 q2 p2 e2 y2 c2 e3 by (intro conjI)
qed

text \<open>
  Claim C7. In the row of an insight whose ad id is a string: when the lookup has the ad, the
  creative type is Video if \<^verbatim>\<open>has_video\<close> is true, whatever \<^verbatim>\<open>has_image\<close>, else Image if
  \<^verbatim>\<open>has_image\<close> is true, else Unknown; when the lookup does not have the ad, the creative
  id is \<^verbatim>\<open>None\<close> and the creative type is Unknown.
\<close>

theorem creative_type_priority:
  assumes "process_insight ins creative_details = Inr r"
    and "dict_item ins ''ad_id'' = Inr (PStr a)"
  shows "(\<forall>c. map_of creative_details a = Some c \<longrightarrow>
            creative_type r =
              (if truthy (dict_get_none c ''has_video'') then ''Video''
               else if truthy (dict_get_none c ''has_image'') then ''Image''
               else ''Unknown''))
         \<and> (map_of creative_details a = None \<longrightarrow>
              creative_id r = PNone \<and> creative_type r = ''Unknown'')"
proof -
  from process_insight_Inr [OF assms(1)] assms(2)
  obtain c where c: "lookup_creative creative_details (PStr a) = Inr c"
    "creative_id r = dict_get_none c ''creative_id''" "creative_type r = ctype_of c"
    by auto
  show ?thesis
  proof (cases "map_of creative_details a")
    case None
    then have "c = []" using c(1) by (simp add: lookup_creative_def hashable_def)
    then show ?thesis
      using None c(2,3) by (simp add: ctype_of_def dict_get_none_def dict_get_def truthy_def)
  next
    case (Some c')
    then have "c = c'" using c(1) by (simp add: lookup_creative_def hashable_def)
    then show ?thesis using Some c(3) by (simp add: ctype_of_def)
  qed
qed

theorem creative_type_priority_witness:
  "process_insight example_insight example_creatives = Inr example_row_video
   \<and> dict_item example_insight ''ad_id'' = Inr (PStr ''a1'')
   \<and> truthy (dict_get_none (the (map_of example_creatives ''a1'')) ''has_video'')
   \<and> truthy (dict_get_none (the (map_of example_creatives ''a1'')) ''has_image'')
   \<and> creative_type example_row_video = ''Video''
   \<and> process_insight example_insight [] = Inr example_row
   \<and> creative_id example_row = PNone
   \<and> creative_type example_row = ''Unknown''"
proof -
  have a: "dict_item example_insight ''ad_id'' = Inr (PStr ''a1'')" by code_simp
  have m: "map_of example_creatives ''a1'' = Some (the (map_of example_creatives ''a1''))"
    by code_simp
  have v: "truthy (dict_get_none (the (map_of example_creatives ''a1'')) ''has_video'')"
    by code_simp
  have i: "truthy (dict_get_none (the (map_of example_creatives ''a1'')) ''has_image'')"
    by code_simp
  have p: "creative_type example_row_video = ''Video''"
    using creative_type_priority [OF example_insight_row_video a] m v by auto
  have q: "creative_id example_row = PNone \<and> creative_type example_row = ''Unknown''"
    using creative_type_priority [OF example_insight_row a] by simp
  show ?thesis
    using example_insight_row_video a v i p example_insight_row q by (intro conjI) simp_all
qed

text \<open>
  Claim C9. The insight of scenario 1 (with any identifying fields), and the same insight with
  its numbers as strings, give ctr 2.0, cpm 50.0, 2 conversions, conversion value 150.0,
  cpa 25.0 and roas 3.0.
\<close>

theorem scenario_1_metrics:
  "map_sum id metrics_of
     (process_insight (scenario_1 d cid cname sid sname a aname) creative_details)
   = Inr (NFloat (Finite 2), NFloat (Finite 50), 2, Finite 150, NFloat (Finite 25),
          NFloat (Finite 3))
   \<and> map_sum id metrics_of (process_insight example_insight creative_details)
     = Inr (NFloat (Finite 2), NFloat (Finite 50), 2, Finite 150, NFloat (Finite 25),
            NFloat (Finite 3))"
  by code_simp

section \<open>Exceptions\<close>

lemma action_conversions_ok:
  assumes "conversion_entry_ok a"
  shows "action_conversions a = Inr (if counted a then Some (truncated_value a) else None)"
proof -
  obtain d where a: "a = PDict d" using assms by (cases a) (simp_all add: conversion_entry_ok_def)
  have h: "hashable (dict_get d ''action_type'' PNone)"
    using assms a by (simp add: conversion_entry_ok_def)
  show ?thesis
  proof (cases "counted a")
    case True
    then obtain x where x: "py_float (dict_get d ''value'' (PInt 0)) = Inr (Finite x)"
      using assms a by (auto simp: conversion_entry_ok_def split: sum.splits pyfloat.splits)
    have "in_str_set (dict_get d ''action_type'' PNone) conv_types = Inr True"
      using True a h by (auto simp: counted_def in_str_set_def split: pyval.splits)
    then show ?thesis
      using True a x
      by (simp add: action_conversions_def val_get_def truncated_value_def float_to_int_def)
  next
    case False
    have "in_str_set (dict_get d ''action_type'' PNone) conv_types = Inr False"
      using False a h by (auto simp: counted_def in_str_set_def split: pyval.splits)
    then show ?thesis using False a by (simp add: action_conversions_def val_get_def)
  qed
qed

lemma sum_conversions_ok:
  "list_all conversion_entry_ok actions \<Longrightarrow>
   sum_conversions actions acc = Inr (acc + spec_conversions actions)"
proof (induction actions arbitrary: acc)
  case Nil
  show ?case by (simp add: spec_conversions_def)
next
  case (Cons a actions)
  then show ?case
    by (simp add: action_conversions_ok spec_conversions_def)
qed

lemma in_str_set_counted:
  "hashable (dict_get d ''action_type'' PNone) \<Longrightarrow>
   in_str_set (dict_get d ''action_type'' PNone) conv_types = Inr (counted (PDict d))"
  by (auto simp: counted_def in_str_set_def split: pyval.splits)

lemma action_value_ok:
  assumes "value_entry_ok a"
  shows "\<exists>res. action_value a = Inr res"
proof -
  obtain d where a: "a = PDict d" using assms by (cases a) (simp_all add: value_entry_ok_def)
  have h: "hashable (dict_get d ''action_type'' PNone)"
    using assms a by (simp add: value_entry_ok_def)
  show ?thesis
  proof (cases "counted a")
    case True
    then obtain f where f: "py_float (dict_get d ''value'' (PInt 0)) = Inr f"
      using assms a by (auto simp: value_entry_ok_def split: sum.splits)
    then show ?thesis
      using True a in_str_set_counted [OF h] by (simp add: action_value_def val_get_def)
  next
    case False
    then show ?thesis
      using a in_str_set_counted [OF h] by (simp add: action_value_def val_get_def)
  qed
qed

lemma sum_conv_value_ok:
  "list_all value_entry_ok vals \<Longrightarrow> \<exists>v. sum_conv_value vals acc = Inr v"
proof (induction vals arbitrary: acc)
  case Nil
  show ?case by simp
next
  case (Cons a vals)
  then obtain res where "action_value a = Inr res" using action_value_ok by auto
  then show ?case using Cons by (cases res) simp_all
qed

lemma fits_float_int_to_float: "fits_float n \<Longrightarrow> \<exists>x. int_to_float n = Inr (Finite x)"
  by (auto simp: int_to_float_def float_of_rat_def fits_float_def Let_def)

lemma fits_float_small: "fits_float 100" "fits_float 1000"
  by (simp_all add: fits_float_def overflow_bound_numeral)

lemma int_truediv_ok:
  assumes "i \<noteq> 0" and "fits_float c"
  shows "\<exists>q. int_truediv c i = Inr q"
proof -
  have b: "1 \<le> \<bar>of_int i :: rat\<bar>" using assms(1) by (simp flip: of_int_abs)
  have "\<bar>of_int c / of_int i :: rat\<bar> = \<bar>of_int c\<bar> / \<bar>of_int i\<bar>" by (rule abs_divide)
  also have "\<dots> \<le> \<bar>of_int c\<bar> / 1" using b by (intro divide_left_mono) auto
  finally have "\<bar>of_int c / of_int i :: rat\<bar> < overflow_bound"
    using assms(2) by (simp add: fits_float_def)
  then show ?thesis using assms(1)
    by (auto simp: int_truediv_def float_of_rat_def Let_def)
qed

lemma float_mul_int_ok: "fits_float n \<Longrightarrow> \<exists>p. float_mul_int q n = Inr p"
  using fits_float_int_to_float [of n] by (auto simp: float_mul_int_def)

lemma float_div_int_ok:
  assumes "n \<noteq> 0" and "fits_float n"
  shows "\<exists>q. float_div_int s n = Inr q"
proof -
  obtain x where x: "int_to_float n = Inr (Finite x)"
    using fits_float_int_to_float [OF assms(2)] by blast
  then have "Finite x \<noteq> Finite 0" using int_to_float_nonzero [OF assms(1)] by blast
  then show ?thesis using x by (simp add: float_div_int_def float_div_def)
qed

lemma cpa_of_ok: "fits_float n \<Longrightarrow> \<exists>c. cpa_of s n = Inr c"
  using float_div_int_ok [of n s] by (auto simp: cpa_of_def)

lemma roas_of_ok: "\<exists>r. roas_of v s = Inr r"
  by (auto simp: roas_of_def float_div_def float_truthy_def)

lemma ctr_of_ok:
  assumes "fits_float c"
  shows "\<exists>x. ctr_of c i = Inr x"
proof (cases "i = 0")
  case True
  then show ?thesis by (simp add: ctr_of_def)
next
  case False
  then obtain q where q: "int_truediv c i = Inr q" using int_truediv_ok assms by blast
  obtain p where "float_mul_int q 100 = Inr p" using float_mul_int_ok fits_float_small(1) by blast
  then show ?thesis using False q by (simp add: ctr_of_def)
qed

lemma cpm_of_ok:
  assumes "fits_float i"
  shows "\<exists>x. cpm_of s i = Inr x"
proof (cases "i = 0")
  case True
  then show ?thesis by (simp add: cpm_of_def)
next
  case False
  then obtain q where q: "float_div_int s i = Inr q" using float_div_int_ok assms by blast
  obtain p where "float_mul_int q 1000 = Inr p" using float_mul_int_ok fits_float_small(2) by blast
  then show ?thesis using False q by (simp add: cpm_of_def)
qed

lemma calculate_metrics_ok:
  assumes "well_formed_insight ins"
  shows "\<exists>m. calculate_metrics ins = Inr m"
proof -
  obtain s where s: "py_float (dict_get ins ''spend'' (PInt 0)) = Inr s"
    using assms by (auto simp: well_formed_insight_def split: sum.splits)
  obtain actions where a: "py_iter (dict_get ins ''actions'' (PList [])) = Inr actions"
    "list_all conversion_entry_ok actions" "fits_float (spec_conversions actions)"
    using assms by (auto simp: well_formed_insight_def split: sum.splits)
  obtain vals where v: "py_iter (dict_get ins ''action_values'' (PList [])) = Inr vals"
    "list_all value_entry_ok vals"
    using assms by (auto simp: well_formed_insight_def split: sum.splits)
  have n: "sum_conversions actions 0 = Inr (spec_conversions actions)"
    using sum_conversions_ok [OF a(2), of 0] by simp
  obtain cv where cv: "sum_conv_value vals (Finite 0) = Inr cv"
    using sum_conv_value_ok [OF v(2)] by blast
  obtain c where c: "cpa_of s (spec_conversions actions) = Inr c"
    using cpa_of_ok [OF a(3)] by blast
  obtain r where r: "roas_of cv s = Inr r" using roas_of_ok by blast
  show ?thesis
    using s a(1) n v(1) cv c r by (simp add: calculate_metrics_def)
qed

lemma dict_item_present: "map_of d k \<noteq> None \<Longrightarrow> \<exists>v. dict_item d k = Inr v \<and> dict_get d k dflt = v"
  by (auto simp: dict_item_def dict_get_def)

lemma process_insight_ok:
  assumes "well_formed_insight ins"
  shows "\<exists>r. process_insight ins cd = Inr r"
proof -
  have k: "map_of ins ''ad_id'' \<noteq> None" "map_of ins ''date_start'' \<noteq> None"
    "map_of ins ''campaign_id'' \<noteq> None" "map_of ins ''campaign_name'' \<noteq> None"
    "map_of ins ''adset_id'' \<noteq> None" "map_of ins ''adset_name'' \<noteq> None"
    "map_of ins ''ad_name'' \<noteq> None"
    using assms by (simp_all add: well_formed_insight_def required_keys_def)
  obtain aid where aid: "dict_item ins ''ad_id'' = Inr aid" "dict_get ins ''ad_id'' PNone = aid"
    using dict_item_present [OF k(1)] by blast
  have "hashable aid" using assms aid(2) by (simp add: well_formed_insight_def)
  then obtain c where c: "lookup_creative cd aid = Inr c" by (simp add: lookup_creative_def)
  obtain m where m: "calculate_metrics ins = Inr m" using calculate_metrics_ok [OF assms] by blast
  obtain impr where i: "py_int (dict_get ins ''impressions'' (PInt 0)) = Inr impr" "fits_float impr"
    using assms by (auto simp: well_formed_insight_def split: sum.splits)
  obtain n where n: "py_int (dict_get ins ''clicks'' (PInt 0)) = Inr n" "fits_float n"
    using assms by (auto simp: well_formed_insight_def split: sum.splits)
  obtain s where s: "py_float (dict_get ins ''spend'' (PInt 0)) = Inr s"
    using assms by (auto simp: well_formed_insight_def split: sum.splits)
  obtain x where x: "ctr_of n impr = Inr x" using ctr_of_ok [OF n(2)] by blast
  obtain y where y: "cpm_of s impr = Inr y" using cpm_of_ok [OF i(2)] by blast
  obtain v1 where v1: "dict_item ins ''date_start'' = Inr v1"
    using dict_item_present [OF k(2)] by blast
  obtain v2 where v2: "dict_item ins ''campaign_id'' = Inr v2"
    using dict_item_present [OF k(3)] by blast
  obtain v3 where v3: "dict_item ins ''campaign_name'' = Inr v3"
    using dict_item_present [OF k(4)] by blast
  obtain v4 where v4: "dict_item ins ''adset_id'' = Inr v4"
    using dict_item_present [OF k(5)] by blast
  obtain v5 where v5: "dict_item ins ''adset_name'' = Inr v5"
    using dict_item_present [OF k(6)] by blast
  obtain v6 where v6: "dict_item ins ''ad_name'' = Inr v6"
    using dict_item_present [OF k(7)] by blast
  show ?thesis
    unfolding process_insight_def
    by (simp add: aid(1) c m i(1) n(1) s x y v1 v2 v3 v4 v5 v6)
qed

lemma process_insight_creative:
  assumes "process_insight ins cd = Inr r"
  shows "\<exists>aid c.
           dict_item ins ''ad_id'' = Inr aid \<and> lookup_creative cd aid = Inr c
           \<and> creative_id r = dict_get_none c ''creative_id''
           \<and> creative_name r = dict_get_none c ''creative_name''
           \<and> creative_type r = ctype_of c
           \<and> image_hash r = dict_get_none c ''image_hash''
           \<and> video_id r = dict_get_none c ''video_id''"
  using assms unfolding process_insight_def and_then_eq_Inr by auto

lemma absent_creative_defaults:
  assumes "process_insight ins cd = Inr r" and "absent_from cd (dict_get ins ''ad_id'' PNone)"
  shows "creative_id r = PNone \<and> creative_name r = PNone \<and> creative_type r = ''Unknown''
         \<and> image_hash r = PNone \<and> video_id r = PNone"
proof -
  from process_insight_creative [OF assms(1)]
  obtain aid c where a: "dict_item ins ''ad_id'' = Inr aid" "lookup_creative cd aid = Inr c"
    and f: "creative_id r = dict_get_none c ''creative_id''"
      "creative_name r = dict_get_none c ''creative_name''"
      "creative_type r = ctype_of c"
      "image_hash r = dict_get_none c ''image_hash''"
      "video_id r = dict_get_none c ''video_id''"
    by blast
  have "dict_get ins ''ad_id'' PNone = aid"
    using a(1) by (auto simp: dict_item_def dict_get_def split: option.splits)
  then have "absent_from cd aid" using assms(2) by simp
  then have "c = []"
    using a(2) by (auto simp: lookup_creative_def absent_from_def split: if_splits pyval.splits)
  then show ?thesis
    using f by (simp add: ctype_of_def dict_get_none_def dict_get_def truthy_def)
qed

lemma row_defaults:
  assumes "process_insight ins cd = Inr r"
  shows "defaults_applied cd ins r"
proof -
  from process_insight_Inr [OF assms]
  obtain m where m: "calculate_metrics ins = Inr m"
    and i: "py_int (dict_get ins ''impressions'' (PInt 0)) = Inr (impressions r)"
    and n: "py_int (dict_get ins ''clicks'' (PInt 0)) = Inr (clicks r)"
    and s: "py_float (dict_get ins ''spend'' (PInt 0)) = Inr (spend r)"
    and x: "ctr_of (clicks r) (impressions r) = Inr (ctr r)"
    and y: "cpm_of (spend r) (impressions r) = Inr (cpm r)"
    and f: "conversions r = fst m" "conversion_value r = fst (snd m)"
      "cpa r = fst (snd (snd m))" "roas r = snd (snd (snd m))"
    by blast
  obtain cn cv c0 r0 where m': "m = (cn, cv, c0, r0)" by (cases m) auto
  from calculate_metrics_Inr [OF m [unfolded m']]
  obtain s' actions vals c1 r1 where
    cm: "py_float (dict_get ins ''spend'' (PInt 0)) = Inr s'"
      "py_iter (dict_get ins ''actions'' (PList [])) = Inr actions"
      "sum_conversions actions 0 = Inr cn"
      "py_iter (dict_get ins ''action_values'' (PList [])) = Inr vals"
      "sum_conv_value vals (Finite 0) = Inr cv"
      "cpa_of s' cn = Inr c1" "roas_of cv s' = Inr r1" "c0 = round2 c1" "r0 = round2 r1"
    by blast
  have z: "py_float (PInt 0) = Inr (Finite 0)" "py_int (PInt 0) = Inr 0"
    by (simp_all add: py_float_def py_int_def int_to_float_def float_of_rat_def)
  have a: "map_of ins ''impressions'' = None \<Longrightarrow>
           impressions r = 0 \<and> ctr r = NInt 0 \<and> cpm r = NInt 0"
    using i x y z by (auto simp: dict_get_def ctr_of_def cpm_of_def)
  have b: "map_of ins ''clicks'' = None \<Longrightarrow> clicks r = 0"
    using n z by (auto simp: dict_get_def)
  have c: "map_of ins ''spend'' = None \<Longrightarrow> spend r = Finite 0 \<and> roas r = NInt 0"
    using s cm(1,7,9) z f(4) m' by (auto simp: dict_get_def roas_of_def float_truthy_def round2_def)
  have d: "map_of ins ''actions'' = None \<Longrightarrow> conversions r = 0 \<and> cpa r = NInt 0"
    using cm(2,3,6,8) f(1,3) m' by (auto simp: dict_get_def py_iter_def cpa_of_def round2_def)
  have e: "map_of ins ''action_values'' = None \<Longrightarrow> conversion_value r = Finite 0"
    using cm(4,5) f(2) m' by (auto simp: dict_get_def py_iter_def)
  show ?thesis
    using a b c d e absent_creative_defaults [OF assms] by (simp add: defaults_applied_def)
qed

lemma rows_of_well_formed:
  assumes "list_all well_formed_insight insights"
  shows "\<exists>rows. map (\<lambda>ins. process_insight ins cd) insights = map Inr rows
               \<and> list_all2 (\<lambda>ins r. (\<exists>m. calculate_metrics ins = Inr m) \<and> defaults_applied cd ins r)
                    insights rows"
  using assms
proof (induction insights)
  case Nil
  show ?case by simp
next
  case (Cons ins insights)
  then obtain rows where rows: "map (\<lambda>ins. process_insight ins cd) insights = map Inr rows"
    "list_all2 (\<lambda>ins r. (\<exists>m. calculate_metrics ins = Inr m) \<and> defaults_applied cd ins r)
       insights rows"
    by auto
  have w: "well_formed_insight ins" using Cons.prems by simp
  obtain r where r: "process_insight ins cd = Inr r" using process_insight_ok [OF w] by blast
  have "map (\<lambda>ins. process_insight ins cd) (ins # insights) = map Inr (r # rows)"
    using r rows(1) by simp
  moreover have "list_all2 (\<lambda>ins r. (\<exists>m. calculate_metrics ins = Inr m) \<and> defaults_applied cd ins r)
       (ins # insights) (r # rows)"
    using rows(2) calculate_metrics_ok [OF w] row_defaults [OF r] by simp
  ultimately show ?case by blast
qed

text \<open>
  Claim C1. (amended) \<^verbatim>\<open>calculate_metrics\<close> and \<^verbatim>\<open>process_creative_data\<close> raise nothing on well-formed
  insights, and what is absent takes its default: impressions, clicks, spend, conversions
  and conversion value 0, with ctr, cpm, cpa and roas 0; and for an ad id that is not a key
  of the creative lookup, creative id, name, image hash and video id \<^verbatim>\<open>None\<close> and creative
  type Unknown. An insight without one of the seven identifying keys raises \<^verbatim>\<open>KeyError\<close>,
  and a field that is not a number raises \<^verbatim>\<open>ValueError\<close>: the counterexample.
\<close>

theorem well_formed_insights_never_raise:
  assumes "list_all well_formed_insight insights"
  shows "\<exists>rows. process_creative_data insights creative_details = Inr rows
               \<and> list_all2 (\<lambda>ins r. (\<exists>m. calculate_metrics ins = Inr m)
                                  \<and> defaults_applied creative_details ins r)
                    insights rows"
  using rows_of_well_formed [OF assms, of creative_details]
  unfolding process_creative_data_def append_rows_eq_Inr by blast

theorem well_formed_insights_never_raise_witness:
  "list_all well_formed_insight [example_insight, sparse_insight]
   \<and> process_creative_data [example_insight, sparse_insight] example_creatives
     = Inr [example_row_video, sparse_row]
   \<and> absent_from example_creatives (dict_get sparse_insight ''ad_id'' PNone)
   \<and> (\<exists>rows. process_creative_data [example_insight, sparse_insight] example_creatives = Inr rows
          \<and> list_all2 (\<lambda>ins r. (\<exists>m. calculate_metrics ins = Inr m)
                                  \<and> defaults_applied example_creatives ins r)
               [example_insight, sparse_insight] rows)"
proof -
  have w: "list_all well_formed_insight [example_insight, sparse_insight]" by code_simp
  have e: "process_creative_data [example_insight, sparse_insight] example_creatives
           = Inr [example_row_video, sparse_row]"
    by code_simp
  have a: "absent_from example_creatives (dict_get sparse_insight ''ad_id'' PNone)"
    by code_simp
  show ?thesis
    using w e a well_formed_insights_never_raise [OF w, of example_creatives] by (intro conjI)
qed

theorem malformed_insight_raises_counterexample:
  "process_creative_data [[(''spend'', PStr ''12.5'')]] [] = Inl (KeyError ''ad_id'')
   \<and> calculate_metrics [(''spend'', PStr ''n/a'')] = Inl ValueError
   \<and> process_creative_data [fractional_impressions_insight] [] = Inl ValueError"
  by code_simp

end
